theory Spec2Isabelle
  imports Complex_Main "HOL-Library.Sublist"
begin

section \<open>Moltslack coordination engine: the model\<close>

text \<open>
  A shallow embedding of the TypeScript services of the repository: \<open>AuthService\<close>
  (\<open>services/auth-service.ts\<close>), \<open>ChannelService\<close> (\<open>services/channel-service.ts\<close>),
  \<open>MessageService\<close>, \<open>PresenceService\<close> and the acknowledgement table of \<open>RelayClient\<close>
  (\<open>relay/relay-client.ts\<close>). Every service object is a record of its private fields,
  every method takes the record and returns the updated one, a \<open>throw\<close> is the left
  injection of a sum, and the values the runtime supplies (\<open>uuid()\<close>, \<open>new Date()\<close>,
  \<open>Date.now()\<close>) are arguments. \<open>console.log\<close> is left out.
\<close>

subsection \<open>JavaScript strings, arrays and sets\<close>

text \<open>\<open>String.prototype.endsWith\<close>, \<open>startsWith\<close> and \<open>slice(0, -1)\<close>.\<close>

definition endsWith :: "string \<Rightarrow> string \<Rightarrow> bool" where
  "endsWith s searchString =
     (length searchString \<le> length s \<and>
      drop (length s - length searchString) s = searchString)"

definition startsWith :: "string \<Rightarrow> string \<Rightarrow> bool" where
  "startsWith s searchString = (take (length searchString) s = searchString)"

definition slice_0_neg1 :: "string \<Rightarrow> string" where
  "slice_0_neg1 s = take (length s - 1) s"

text \<open>\<open>Array.prototype.indexOf\<close>: the first index of the element, \<open>-1\<close> when it is absent;
  \<open>Array.prototype.includes\<close>.\<close>

fun indexOf :: "'a list \<Rightarrow> 'a \<Rightarrow> int" where
  "indexOf [] x = - 1"
| "indexOf (y # ys) x =
     (if y = x then 0 else (let i = indexOf ys x in if i < 0 then - 1 else i + 1))"

fun js_includes :: "'a list \<Rightarrow> 'a \<Rightarrow> bool" where
  "js_includes [] x = False"
| "js_includes (y # ys) x = (if y = x then True else js_includes ys x)"

text \<open>A JavaScript \<open>Set<string>\<close> keeps its elements in insertion order and without
  repetition: a list, with \<open>has\<close>, \<open>add\<close>, \<open>delete\<close> and \<open>size\<close>.\<close>

type_synonym js_set = "string list"

definition set_has :: "js_set \<Rightarrow> string \<Rightarrow> bool" where
  "set_has s x = js_includes s x"

definition set_add :: "js_set \<Rightarrow> string \<Rightarrow> js_set" where
  "set_add s x = (if set_has s x then s else s @ [x])"

definition set_delete :: "js_set \<Rightarrow> string \<Rightarrow> js_set" where
  "set_delete s x = filter (\<lambda>y. y \<noteq> x) s"

definition set_size :: "js_set \<Rightarrow> nat" where
  "set_size s = length s"

subsection \<open>AuthService: permissions\<close>

datatype Action = Read | Write | Admin

record Permission =
  resource :: string
  actions :: "Action list"

definition matchResource :: "string \<Rightarrow> string \<Rightarrow> bool" where
  "matchResource pattern res =
     (if pattern = ''*'' then True
      else if pattern = res then True
      else if endsWith pattern '':*'' then
        (let prefix = slice_0_neg1 pattern in startsWith res prefix)
      else False)"

fun checkPermissions :: "Permission list \<Rightarrow> string \<Rightarrow> Action \<Rightarrow> bool" where
  "checkPermissions [] res action = False"
| "checkPermissions (perm # perms) res action =
     (if matchResource (resource perm) res then
        (if js_includes (actions perm) action \<or> js_includes (actions perm) Admin then True
         else checkPermissions perms res action)
      else checkPermissions perms res action)"

definition createDefaultPermissions :: "Permission list" where
  "createDefaultPermissions =
     [\<lparr>resource = ''channel:*'', actions = [Read, Write]\<rparr>,
      \<lparr>resource = ''message:*'', actions = [Read, Write]\<rparr>,
      \<lparr>resource = ''presence:*'', actions = [Read, Write]\<rparr>]"

definition createAdminPermissions :: "Permission list" where
  "createAdminPermissions = [\<lparr>resource = ''*'', actions = [Admin]\<rparr>]"

subsection \<open>ChannelService\<close>

datatype ChannelType = PUBLIC | PRIVATE | DIRECT | BROADCAST

datatype ChannelAccessLevel = READ | WRITE | ADMIN

datatype PrincipalType = P_agent | P_role | P_all

record ChannelAccessRule =
  principal :: string
  principalType :: PrincipalType
  level :: ChannelAccessLevel
  rule_expiresAt :: "string option"

record ChannelMetadata =
  displayName :: string
  topic :: "string option"
  purpose :: "string option"
  isArchived :: bool
  allowExternal :: bool
  retentionDays :: "int option"
  custom :: "(string \<times> string) list option"

text \<open>\<open>Partial<ChannelMetadata>\<close>: \<open>None\<close> is a key that the object does not have.\<close>

record PartialChannelMetadata =
  p_displayName :: "string option"
  p_topic :: "string option"
  p_purpose :: "string option"
  p_isArchived :: "bool option"
  p_allowExternal :: "bool option"
  p_retentionDays :: "int option"
  p_custom :: "(string \<times> string) list option"

record Channel =
  channel_id :: string
  channel_name :: string
  channel_projectId :: string
  channel_type :: ChannelType
  accessRules :: "ChannelAccessRule list"
  defaultAccess :: "ChannelAccessLevel option"
  metadata :: ChannelMetadata
  createdBy :: string
  createdAt :: string
  memberCount :: nat

record ChannelCreateInput =
  input_name :: string
  input_type :: "ChannelType option"
  input_topic :: "string option"
  input_isPrivate :: "bool option"
  input_metadata :: "PartialChannelMetadata option"

text \<open>The calls a \<open>ChannelService\<close> makes on its relay client, in the order made.\<close>

datatype channel_relay_call =
    SubscribeToChannel string string
  | UnsubscribeFromChannel string string

text \<open>The private fields. \<open>relayClient\<close> is \<open>None\<close> when the service was built without a
  relay, else the calls made on it so far.\<close>

record ChannelService =
  channels :: "string \<rightharpoonup> Channel"
  nameIndex :: "string \<rightharpoonup> string"
  memberships :: "string \<rightharpoonup> js_set"
  cs_projectId :: string
  cs_relayClient :: "channel_relay_call list option"

text \<open>The two \<open>throw new Error(...)\<close> of the service, by what they report.\<close>

datatype service_error = AlreadyExists string | PermissionDenied string

definition createDefaultAccessRules :: "ChannelType \<Rightarrow> ChannelAccessRule list" where
  "createDefaultAccessRules t =
     (case t of
        PUBLIC \<Rightarrow> [\<lparr>principal = ''*'', principalType = P_all, level = WRITE, rule_expiresAt = None\<rparr>]
      | PRIVATE \<Rightarrow> []
      | BROADCAST \<Rightarrow> [\<lparr>principal = ''*'', principalType = P_all, level = READ, rule_expiresAt = None\<rparr>]
      | DIRECT \<Rightarrow> [])"

definition spread_metadata :: "ChannelMetadata \<Rightarrow> PartialChannelMetadata option \<Rightarrow> ChannelMetadata" where
  "spread_metadata m po =
     (case po of
        None \<Rightarrow> m
      | Some p \<Rightarrow>
          \<lparr>displayName = (case p_displayName p of Some v \<Rightarrow> v | None \<Rightarrow> displayName m),
           topic = (case p_topic p of Some v \<Rightarrow> Some v | None \<Rightarrow> topic m),
           purpose = (case p_purpose p of Some v \<Rightarrow> Some v | None \<Rightarrow> purpose m),
           isArchived = (case p_isArchived p of Some v \<Rightarrow> v | None \<Rightarrow> isArchived m),
           allowExternal = (case p_allowExternal p of Some v \<Rightarrow> v | None \<Rightarrow> allowExternal m),
           retentionDays = (case p_retentionDays p of Some v \<Rightarrow> Some v | None \<Rightarrow> retentionDays m),
           custom = (case p_custom p of Some v \<Rightarrow> Some v | None \<Rightarrow> custom m)\<rparr>)"

text \<open>\<open>create(input, createdBy)\<close>; \<open>uuid\<close> and \<open>now\<close> are the values of \<open>uuid()\<close> and
  \<open>new Date().toISOString()\<close>.\<close>

definition create ::
  "ChannelCreateInput \<Rightarrow> string \<Rightarrow> string \<Rightarrow> string \<Rightarrow> ChannelService
     \<Rightarrow> (service_error + Channel) \<times> ChannelService" where
  "create input by uuid now svc =
     (if nameIndex svc (input_name input) \<noteq> None then
        (Inl (AlreadyExists (''Channel \"'' @ input_name input @ ''\" already exists'')), svc)
      else
        let cid = ''ch-'' @ uuid;
            t = (case input_type input of Some ty \<Rightarrow> ty | None \<Rightarrow> PUBLIC);
            channel =
              \<lparr>channel_id = cid,
               channel_name = input_name input,
               channel_projectId = cs_projectId svc,
               channel_type = t,
               accessRules = createDefaultAccessRules t,
               defaultAccess = (if input_type input = Some PRIVATE then None else Some READ),
               metadata =
                 spread_metadata
                   \<lparr>displayName = input_name input, topic = input_topic input,
                    purpose = None, isArchived = False, allowExternal = False,
                    retentionDays = None, custom = None\<rparr>
                   (input_metadata input),
               createdBy = by,
               createdAt = now,
               memberCount = 0\<rparr>
        in (Inr channel,
            svc\<lparr>channels := (channels svc)(cid \<mapsto> channel),
                nameIndex := (nameIndex svc)(input_name input \<mapsto> cid),
                memberships := (memberships svc)(cid \<mapsto> [])\<rparr>))"

text \<open>The constructor: empty tables, then \<open>createDefaultChannels()\<close>.\<close>

definition createDefaultChannels ::
  "string \<Rightarrow> string \<Rightarrow> string \<Rightarrow> string \<Rightarrow> ChannelService \<Rightarrow> ChannelService" where
  "createDefaultChannels uuid1 now1 uuid2 now2 svc =
     (let svc1 = snd (create
            \<lparr>input_name = ''general'', input_type = Some PUBLIC,
             input_topic = Some ''General discussion for all agents'',
             input_isPrivate = None, input_metadata = None\<rparr> ''system'' uuid1 now1 svc)
      in snd (create
            \<lparr>input_name = ''announcements'', input_type = Some BROADCAST,
             input_topic = Some ''System-wide announcements'',
             input_isPrivate = None, input_metadata = None\<rparr> ''system'' uuid2 now2 svc1))"

definition new_ChannelService ::
  "string \<Rightarrow> channel_relay_call list option \<Rightarrow> string \<Rightarrow> string \<Rightarrow> string \<Rightarrow> string
     \<Rightarrow> ChannelService" where
  "new_ChannelService projectId relay uuid1 now1 uuid2 now2 =
     createDefaultChannels uuid1 now1 uuid2 now2
       \<lparr>channels = Map.empty, nameIndex = Map.empty, memberships = Map.empty,
        cs_projectId = projectId, cs_relayClient = relay\<rparr>"

definition matchRule :: "ChannelAccessRule \<Rightarrow> string \<Rightarrow> bool" where
  "matchRule rule agentId =
     (if principalType rule = P_all then True
      else if principalType rule = P_agent \<and> principal rule = agentId then True
      else False)"

definition accessLevelSatisfies :: "ChannelAccessLevel \<Rightarrow> ChannelAccessLevel \<Rightarrow> bool" where
  "accessLevelSatisfies actual required =
     (let levels = [READ, WRITE, ADMIN] in indexOf levels actual \<ge> indexOf levels required)"

text \<open>The loop of \<open>checkAccess\<close> over \<open>channel.accessRules\<close>: \<open>Some v\<close> when it returns \<open>v\<close>
  from inside the loop, \<open>None\<close> when it runs to the end.\<close>

fun checkAccessRules :: "ChannelAccessRule list \<Rightarrow> string \<Rightarrow> ChannelAccessLevel \<Rightarrow> bool option" where
  "checkAccessRules [] agentId requiredLevel = None"
| "checkAccessRules (rule # rules) agentId requiredLevel =
     (if matchRule rule agentId then Some (accessLevelSatisfies (level rule) requiredLevel)
      else checkAccessRules rules agentId requiredLevel)"

definition checkAccess :: "ChannelService \<Rightarrow> string \<Rightarrow> string \<Rightarrow> ChannelAccessLevel \<Rightarrow> bool" where
  "checkAccess svc channelId agentId requiredLevel =
     (case channels svc channelId of
        None \<Rightarrow> False
      | Some channel \<Rightarrow>
          (case checkAccessRules (accessRules channel) agentId requiredLevel of
             Some verdict \<Rightarrow> verdict
           | None \<Rightarrow>
               (case defaultAccess channel of
                  Some d \<Rightarrow> accessLevelSatisfies d requiredLevel
                | None \<Rightarrow> False)))"

definition relay_notify :: "channel_relay_call \<Rightarrow> ChannelService \<Rightarrow> ChannelService" where
  "relay_notify c svc = svc\<lparr>cs_relayClient := map_option (\<lambda>calls. calls @ [c]) (cs_relayClient svc)\<rparr>"

definition join :: "string \<Rightarrow> string \<Rightarrow> ChannelService \<Rightarrow> (service_error + bool) \<times> ChannelService" where
  "join channelId agentId svc =
     (case channels svc channelId of
        None \<Rightarrow> (Inr False, svc)
      | Some channel \<Rightarrow>
          if \<not> checkAccess svc channelId agentId READ then
            (Inl (PermissionDenied ''Permission denied: cannot join channel''), svc)
          else
            (case memberships svc channelId of
               None \<Rightarrow> (Inr False, svc)
             | Some members \<Rightarrow>
                 if \<not> set_has members agentId then
                   let members' = set_add members agentId;
                       channel' = channel\<lparr>memberCount := set_size members'\<rparr>
                   in (Inr True,
                       relay_notify (SubscribeToChannel agentId channelId)
                         (svc\<lparr>memberships := (memberships svc)(channelId \<mapsto> members'),
                              channels := (channels svc)(channelId \<mapsto> channel')\<rparr>))
                 else (Inr True, svc)))"

definition leave :: "string \<Rightarrow> string \<Rightarrow> ChannelService \<Rightarrow> bool \<times> ChannelService" where
  "leave channelId agentId svc =
     (case channels svc channelId of
        None \<Rightarrow> (False, svc)
      | Some channel \<Rightarrow>
          (case memberships svc channelId of
             None \<Rightarrow> (False, svc)
           | Some members \<Rightarrow>
               if set_has members agentId then
                 let members' = set_delete members agentId;
                     channel' = channel\<lparr>memberCount := set_size members'\<rparr>
                 in (True,
                     relay_notify (UnsubscribeFromChannel agentId channelId)
                       (svc\<lparr>memberships := (memberships svc)(channelId \<mapsto> members'),
                            channels := (channels svc)(channelId \<mapsto> channel')\<rparr>))
               else (True, svc)))"

definition addAccessRule :: "string \<Rightarrow> ChannelAccessRule \<Rightarrow> ChannelService \<Rightarrow> bool \<times> ChannelService" where
  "addAccessRule channelId rule svc =
     (case channels svc channelId of
        None \<Rightarrow> (False, svc)
      | Some channel \<Rightarrow>
          (True, svc\<lparr>channels :=
             (channels svc)(channelId \<mapsto> channel\<lparr>accessRules := accessRules channel @ [rule]\<rparr>)\<rparr>))"

text \<open>The order read < write < admin of the access levels, as ranks.\<close>

fun level_rank :: "ChannelAccessLevel \<Rightarrow> nat" where
  "level_rank READ = 0"
| "level_rank WRITE = 1"
| "level_rank ADMIN = 2"

text \<open>A run of \<open>create\<close>, \<open>join\<close> and \<open>leave\<close> calls on one service; a call that throws
  leaves the service as it was when it threw.\<close>

datatype channel_op =
    Create ChannelCreateInput string string string
  | Join string string
  | Leave string string

fun apply_channel_op :: "channel_op \<Rightarrow> ChannelService \<Rightarrow> ChannelService" where
  "apply_channel_op (Create input by uuid now) svc = snd (create input by uuid now svc)"
| "apply_channel_op (Join channelId agentId) svc = snd (join channelId agentId svc)"
| "apply_channel_op (Leave channelId agentId) svc = snd (leave channelId agentId svc)"

fun run_channel_ops :: "channel_op list \<Rightarrow> ChannelService \<Rightarrow> ChannelService" where
  "run_channel_ops [] svc = svc"
| "run_channel_ops (op # ops) svc = run_channel_ops ops (apply_channel_op op svc)"

text \<open>The membership-count invariant: every channel of the table has a membership set, the
  set has no repeated member, and the channel's \<open>memberCount\<close> is the set's size.\<close>

definition member_count_inv :: "ChannelService \<Rightarrow> bool" where
  "member_count_inv svc =
     (\<forall>cid channel. channels svc cid = Some channel \<longrightarrow>
        (\<exists>members. memberships svc cid = Some members \<and> distinct members
           \<and> memberCount channel = set_size members))"

text \<open>The scenario of a private channel: on a fresh service with relay, \<open>Lead\<close> creates the
  private channel \<open>ops\<close>; then the rule \<open>{principal: 'Worker1', principalType: 'agent',
  level: 'write'}\<close> is added.\<close>

definition ops_service :: ChannelService where
  "ops_service =
     snd (create
       \<lparr>input_name = ''ops'', input_type = Some PRIVATE, input_topic = None,
        input_isPrivate = None, input_metadata = None\<rparr> ''Lead'' ''3'' ''2026-01-01T00:00:00.000Z''
       (new_ChannelService ''proj'' (Some []) ''1'' ''2026-01-01T00:00:00.000Z''
          ''2'' ''2026-01-01T00:00:00.000Z''))"

definition ops_service_with_rule :: ChannelService where
  "ops_service_with_rule =
     snd (addAccessRule ''ch-3''
       \<lparr>principal = ''Worker1'', principalType = P_agent, level = WRITE, rule_expiresAt = None\<rparr>
       ops_service)"

text \<open>An example run on a fresh service: \<open>a1\<close> joins \<open>general\<close> twice, \<open>a2\<close> joins and leaves.\<close>

definition membership_example :: ChannelService where
  "membership_example =
     run_channel_ops
       [Join ''ch-1'' ''a1'', Join ''ch-1'' ''a1'', Join ''ch-1'' ''a2'', Leave ''ch-1'' ''a2'']
       (new_ChannelService ''proj'' (Some []) ''1'' ''2026-01-01T00:00:00.000Z''
          ''2'' ''2026-01-01T00:00:00.000Z'')"

subsection \<open>MessageService\<close>

datatype TargetType = T_channel | T_agent | T_broadcast

datatype MessageType = TEXT | SYSTEM | COMMAND | EVENT | FILE | REACTION | THREAD_REPLY

text \<open>\<open>MessageDeliveryStatus\<close>; its \<open>READ\<close> is \<open>MSG_READ\<close> here, \<open>READ\<close> being the access level.\<close>

datatype MessageDeliveryStatus = PENDING | SENT | DELIVERED | MSG_READ | FAILED

datatype MentionType = M_agent | M_channel | M_all

text \<open>A JavaScript value as \<open>JSON.stringify\<close> sees it: the keys of an object in insertion
  order, a key whose value is \<open>undefined\<close> absent.\<close>

datatype json =
    JNull
  | JBool bool
  | JNum int
  | JStr string
  | JArr "json list"
  | JObj "(string \<times> json) list"

record MessageAttachment =
  attachment_id :: string
  mimeType :: string
  filename :: string
  sizeBytes :: nat
  url :: string
  contentHash :: string

record MessageMention =
  mention_type :: MentionType
  mention_targetId :: "string option"
  startIndex :: nat
  mention_length :: nat

record MessageContent =
  content_text :: string
  data :: "(string \<times> json) list option"
  mentions :: "MessageMention list"
  attachments :: "MessageAttachment list"

record Message =
  message_id :: string
  message_projectId :: string
  targetId :: string
  targetType :: TargetType
  senderId :: string
  message_type :: MessageType
  content :: MessageContent
  threadId :: "string option"
  correlationId :: "string option"
  signature :: string
  deliveryStatus :: MessageDeliveryStatus
  sentAt :: string
  editedAt :: "string option"
  deletedAt :: "string option"

record MessageSendInput =
  send_targetId :: string
  send_targetType :: TargetType
  send_type :: "MessageType option"
  send_text :: string
  send_data :: "(string \<times> json) list option"
  send_threadId :: "string option"
  send_correlationId :: "string option"

text \<open>What the service hands to its relay client: \<open>broadcastToChannel\<close>, \<open>sendToAgent\<close> and
  \<open>broadcast\<close> with the frame \<open>{type: 'message', data: message, timestamp}\<close>, and
  \<open>emitRelayEvent\<close> with the event \<open>{type: 'message.sent', source, target, data, timestamp}\<close>
  whose data is \<open>{messageId, action: 'edited', newText}\<close> or \<open>{messageId, action: 'deleted'}\<close>.\<close>

datatype relay_event_data = Edited string string | Deleted string

datatype message_relay_call =
    BroadcastToChannel string Message int
  | SendToAgent string Message int
  | Broadcast Message int
  | EmitRelayEvent string string relay_event_data int

text \<open>The private fields. \<open>channelService\<close> is \<open>None\<close> when the service was built without a
  channel service, else the channel service it refers to, in its current state;
  \<open>ms_relayClient\<close> as for the channel service.\<close>

record MessageService =
  messages :: "string \<rightharpoonup> Message"
  channelMessages :: "string \<rightharpoonup> string list"
  threadMessages :: "string \<rightharpoonup> string list"
  ms_projectId :: string
  ms_relayClient :: "message_relay_call list option"
  channelService :: "ChannelService option"
  signingKey :: string

text \<open>\<open>extractMentions\<close>: the matches of \<open>/@(\w+)/g\<close> from left to right, \<open>\w\<close> being a
  letter, a digit or the underscore. \<open>extractMentionsFrom i s\<close> scans the rest \<open>s\<close> of the
  text that starts at index \<open>i\<close>; a match is an \<open>@\<close> with the longest run of word characters
  after it, which must not be empty, and the scan goes on behind the match.\<close>

definition isWordChar :: "char \<Rightarrow> bool" where
  "isWordChar c =
     (let n = (of_char c :: nat)
      in (97 \<le> n \<and> n \<le> 122) \<or> (65 \<le> n \<and> n \<le> 90) \<or> (48 \<le> n \<and> n \<le> 57) \<or> n = 95)"

function extractMentionsFrom :: "nat \<Rightarrow> string \<Rightarrow> MessageMention list" where
  "extractMentionsFrom i [] = []"
| "extractMentionsFrom i (c # cs) =
     (if c = CHR ''@'' \<and> takeWhile isWordChar cs \<noteq> [] then
        (let name = takeWhile isWordChar cs
         in \<lparr>mention_type = (if name = ''all'' \<or> name = ''here'' then M_all else M_agent),
             mention_targetId = None,
             startIndex = i,
             mention_length = 1 + length name\<rparr>
            # extractMentionsFrom (i + 1 + length name) (dropWhile isWordChar cs))
      else extractMentionsFrom (i + 1) cs)"
  by pat_completeness auto
termination
  by (relation "measure (\<lambda>(i, s). length s)") (auto simp: length_dropWhile_le less_Suc_eq_le)

definition extractMentions :: "string \<Rightarrow> MessageMention list" where
  "extractMentions t = extractMentionsFrom 0 t"

text \<open>The object \<open>{id, senderId, content, sentAt}\<close> that \<open>signMessage\<close> serializes.
  \<open>JSON.stringify\<close> writes the keys of an object in the order of their insertion, and a record
  has no such order: the content serialized here is one whose keys were inserted in the order
  in which \<open>send\<close> writes them (\<open>text\<close>, \<open>data\<close>, \<open>mentions\<close>, \<open>attachments\<close>), as they are in
  every content that the service makes, and likewise a mention and an attachment in the order
  of their interfaces. A content object with the same values under keys inserted in another
  order is outside the model.\<close>

definition mention_json :: "MessageMention \<Rightarrow> json" where
  "mention_json m =
     JObj ([(''type'', JStr (case mention_type m of
                               M_agent \<Rightarrow> ''agent'' | M_channel \<Rightarrow> ''channel'' | M_all \<Rightarrow> ''all''))]
           @ (case mention_targetId m of None \<Rightarrow> [] | Some t \<Rightarrow> [(''targetId'', JStr t)])
           @ [(''startIndex'', JNum (int (startIndex m))),
              (''length'', JNum (int (mention_length m)))])"

definition attachment_json :: "MessageAttachment \<Rightarrow> json" where
  "attachment_json a =
     JObj [(''id'', JStr (attachment_id a)), (''mimeType'', JStr (mimeType a)),
           (''filename'', JStr (filename a)), (''sizeBytes'', JNum (int (sizeBytes a))),
           (''url'', JStr (url a)), (''contentHash'', JStr (contentHash a))]"

definition content_json :: "MessageContent \<Rightarrow> json" where
  "content_json c =
     JObj ([(''text'', JStr (content_text c))]
           @ (case data c of None \<Rightarrow> [] | Some d \<Rightarrow> [(''data'', JObj d)])
           @ [(''mentions'', JArr (map mention_json (mentions c))),
              (''attachments'', JArr (map attachment_json (attachments c)))])"

definition signing_payload :: "string \<Rightarrow> string \<Rightarrow> MessageContent \<Rightarrow> string \<Rightarrow> json" where
  "signing_payload mid sender c sent =
     JObj [(''id'', JStr mid), (''senderId'', JStr sender), (''content'', content_json c),
           (''sentAt'', JStr sent)]"

text \<open>\<open>crypto.createHmac('sha256', key).update(JSON.stringify(value)).digest('base64')\<close> is
  the work of the runtime's libraries: every function that signs takes it as the argument
  \<open>hmac\<close>, a function of the key and of the value serialized.\<close>

type_synonym hmac_sha256 = "string \<Rightarrow> json \<Rightarrow> string"

definition signMessage ::
  "hmac_sha256 \<Rightarrow> MessageService \<Rightarrow> string \<Rightarrow> string \<Rightarrow> MessageContent \<Rightarrow> string \<Rightarrow> string" where
  "signMessage hmac svc mid sender c sent = hmac (signingKey svc) (signing_payload mid sender c sent)"

definition verifySignature :: "hmac_sha256 \<Rightarrow> MessageService \<Rightarrow> Message \<Rightarrow> bool" where
  "verifySignature hmac svc message =
     (let expectedSig = signMessage hmac svc (message_id message) (senderId message)
                          (content message) (sentAt message)
      in signature message = expectedSig)"

definition relay_call :: "message_relay_call \<Rightarrow> MessageService \<Rightarrow> MessageService" where
  "relay_call c svc = svc\<lparr>ms_relayClient := map_option (\<lambda>calls. calls @ [c]) (ms_relayClient svc)\<rparr>"

definition broadcastMessage :: "Message \<Rightarrow> int \<Rightarrow> MessageService \<Rightarrow> MessageService" where
  "broadcastMessage message nowMs svc =
     (case targetType message of
        T_channel \<Rightarrow> relay_call (BroadcastToChannel (targetId message) message nowMs) svc
      | T_agent \<Rightarrow> relay_call (SendToAgent (targetId message) message nowMs) svc
      | T_broadcast \<Rightarrow> relay_call (Broadcast message nowMs) svc)"

text \<open>\<open>push\<close> on the array under a key of an index, the array created when the key is new.\<close>

definition index_push :: "(string \<rightharpoonup> string list) \<Rightarrow> string \<Rightarrow> string \<Rightarrow> (string \<rightharpoonup> string list)" where
  "index_push idx k v = idx(k \<mapsto> (case idx k of None \<Rightarrow> [] | Some ids \<Rightarrow> ids) @ [v])"

text \<open>\<open>send(input, senderId)\<close>; \<open>uuid\<close>, \<open>now\<close> and \<open>nowMs\<close> are the values of \<open>uuid()\<close>,
  \<open>new Date().toISOString()\<close> and \<open>Date.now()\<close>. The access check is made when the target
  is a channel and a channel service is there; \<open>if (input.threadId)\<close> holds for a thread id
  that is not the empty string.\<close>

definition send ::
  "hmac_sha256 \<Rightarrow> MessageSendInput \<Rightarrow> string \<Rightarrow> string \<Rightarrow> string \<Rightarrow> int \<Rightarrow> MessageService
     \<Rightarrow> (service_error + Message) \<times> MessageService" where
  "send hmac input sender uuid now nowMs svc =
     (if send_targetType input = T_channel
         \<and> (case channelService svc of
               None \<Rightarrow> False
             | Some cs \<Rightarrow> \<not> checkAccess cs (send_targetId input) sender WRITE)
      then (Inl (PermissionDenied ''Permission denied: cannot send to this channel''), svc)
      else
        let mid = ''msg-'' @ uuid;
            c = \<lparr>content_text = send_text input, data = send_data input,
                 mentions = extractMentions (send_text input), attachments = []\<rparr>;
            message =
              \<lparr>message_id = mid,
               message_projectId = ms_projectId svc,
               targetId = send_targetId input,
               targetType = send_targetType input,
               senderId = sender,
               message_type = (case send_type input of Some t \<Rightarrow> t | None \<Rightarrow> TEXT),
               content = c,
               threadId = send_threadId input,
               correlationId = send_correlationId input,
               signature = signMessage hmac svc mid sender c now,
               deliveryStatus = SENT,
               sentAt = now,
               editedAt = None,
               deletedAt = None\<rparr>;
            svc1 = svc\<lparr>messages := (messages svc)(mid \<mapsto> message)\<rparr>;
            svc2 = (if send_targetType input = T_channel
                    then svc1\<lparr>channelMessages :=
                                 index_push (channelMessages svc1) (send_targetId input) mid\<rparr>
                    else svc1);
            svc3 = (case send_threadId input of
                      None \<Rightarrow> svc2
                    | Some t \<Rightarrow>
                        if t = [] then svc2
                        else svc2\<lparr>threadMessages := index_push (threadMessages svc2) t mid\<rparr>)
        in (Inr message, broadcastMessage message nowMs svc3))"

definition edit ::
  "hmac_sha256 \<Rightarrow> string \<Rightarrow> string \<Rightarrow> string \<Rightarrow> string \<Rightarrow> int \<Rightarrow> MessageService
     \<Rightarrow> (service_error + bool) \<times> MessageService" where
  "edit hmac messageId newText editorId now nowMs svc =
     (case messages svc messageId of
        None \<Rightarrow> (Inr False, svc)
      | Some message \<Rightarrow>
          if senderId message \<noteq> editorId then
            (Inl (PermissionDenied ''Permission denied: only sender can edit message''), svc)
          else
            let m1 = message\<lparr>content := (content message)\<lparr>content_text := newText\<rparr>\<rparr>;
                m2 = m1\<lparr>editedAt := Some now\<rparr>;
                m3 = m2\<lparr>signature := signMessage hmac svc (message_id m2) (senderId m2)
                                        (content m2) (sentAt m2)\<rparr>
            in (Inr True,
                relay_call
                  (EmitRelayEvent editorId (targetId m3) (Edited messageId newText) nowMs)
                  (svc\<lparr>messages := (messages svc)(messageId \<mapsto> m3)\<rparr>)))"

definition delete ::
  "string \<Rightarrow> string \<Rightarrow> string \<Rightarrow> int \<Rightarrow> MessageService \<Rightarrow> (service_error + bool) \<times> MessageService" where
  "delete messageId deleterId now nowMs svc =
     (case messages svc messageId of
        None \<Rightarrow> (Inr False, svc)
      | Some message \<Rightarrow>
          if senderId message \<noteq> deleterId then
            (Inl (PermissionDenied ''Permission denied: only sender can delete message''), svc)
          else
            let m1 = message\<lparr>deletedAt := Some now\<rparr>
            in (Inr True,
                relay_call
                  (EmitRelayEvent deleterId (targetId m1) (Deleted messageId) nowMs)
                  (svc\<lparr>messages := (messages svc)(messageId \<mapsto> m1)\<rparr>)))"

definition markDelivered :: "string \<Rightarrow> string \<Rightarrow> MessageService \<Rightarrow> MessageService" where
  "markDelivered messageId recipientId svc =
     (case messages svc messageId of
        None \<Rightarrow> svc
      | Some message \<Rightarrow>
          if deliveryStatus message = SENT then
            svc\<lparr>messages := (messages svc)(messageId \<mapsto> message\<lparr>deliveryStatus := DELIVERED\<rparr>)\<rparr>
          else svc)"

definition markRead :: "string \<Rightarrow> string \<Rightarrow> MessageService \<Rightarrow> MessageService" where
  "markRead messageId readerId svc =
     (case messages svc messageId of
        None \<Rightarrow> svc
      | Some message \<Rightarrow>
          svc\<lparr>messages := (messages svc)(messageId \<mapsto> message\<lparr>deliveryStatus := MSG_READ\<rparr>)\<rparr>)"

text \<open>An example pipeline: no message yet, a relay, the channel service of the private
  channel \<open>ops\<close> (\<open>ch-3\<close>) in which only \<open>Worker1\<close> may write; and a digest for it that has
  no second preimage at the one payload signed in the example.\<close>

definition example_pipeline :: MessageService where
  "example_pipeline =
     \<lparr>messages = Map.empty, channelMessages = Map.empty, threadMessages = Map.empty,
      ms_projectId = ''proj'', ms_relayClient = Some [],
      channelService = Some ops_service_with_rule, signingKey = ''key''\<rparr>"

definition example_input :: MessageSendInput where
  "example_input =
     \<lparr>send_targetId = ''ch-3'', send_targetType = T_channel, send_type = None,
      send_text = ''hi @bob'', send_data = None, send_threadId = None,
      send_correlationId = None\<rparr>"

definition example_payload :: json where
  "example_payload =
     signing_payload ''msg-7'' ''Worker1''
       \<lparr>content_text = ''hi @bob'', data = None, mentions = extractMentions ''hi @bob'',
        attachments = []\<rparr> ''2026-01-01T00:00:01.000Z''"

definition example_hmac :: hmac_sha256 where
  "example_hmac key p = (if p = example_payload then key @ ''-0'' else key @ ''-1'')"

definition example_sent :: "(service_error + Message) \<times> MessageService" where
  "example_sent =
     send example_hmac example_input ''Worker1'' ''7'' ''2026-01-01T00:00:01.000Z'' 1767225601000
       example_pipeline"

definition example_message :: Message where
  "example_message =
     \<lparr>message_id = ''msg-7'', message_projectId = ''proj'', targetId = ''ch-3'',
      targetType = T_channel, senderId = ''Worker1'', message_type = TEXT,
      content = \<lparr>content_text = ''hi @bob'', data = None,
                 mentions = extractMentions ''hi @bob'', attachments = []\<rparr>,
      threadId = None, correlationId = None, signature = ''key-0'', deliveryStatus = SENT,
      sentAt = ''2026-01-01T00:00:01.000Z'', editedAt = None, deletedAt = None\<rparr>"

text \<open>The same pipeline built without a channel service,
  \<open>new MessageService(projectId, relayClient)\<close>, and the message that \<open>Worker2\<close> sends
  through it.\<close>

definition unwired_pipeline :: MessageService where
  "unwired_pipeline = example_pipeline\<lparr>channelService := None\<rparr>"

definition unchecked_message :: Message where
  "unchecked_message = example_message\<lparr>senderId := ''Worker2'', signature := ''key-1''\<rparr>"

subsection \<open>AuthService: tokens\<close>

text \<open>A JavaScript number is a double: here the rational number it stands for (no \<open>NaN\<close>, no
  infinity). The result of an addition or a division is the double nearest to the exact one,
  a tie going to the even mantissa; \<open>nearest_double\<close> computes it for the normal range (from
  \<open>2^-1022\<close> up to \<open>2^1024\<close>). Every whole number up to \<open>2^53\<close> in absolute value is a double.\<close>

function bit_length :: "int \<Rightarrow> int" where
  "bit_length n = (if n \<le> 0 then 0 else 1 + bit_length (n div 2))"
  by pat_completeness auto
termination
  by (relation "measure nat") auto

definition pow2 :: "int \<Rightarrow> rat" where
  "pow2 e = (if 0 \<le> e then 2 ^ nat e else 1 / 2 ^ nat (- e))"

text \<open>For a positive \<open>x\<close>, the \<open>k\<close> with \<open>2^k \<le> x < 2^(k+1)\<close>.\<close>

definition floor_log2 :: "rat \<Rightarrow> int" where
  "floor_log2 x =
     (let (p, q) = quotient_of x;
          k = bit_length p - bit_length q
      in if pow2 k \<le> x then k else k - 1)"

definition round_half_even :: "rat \<Rightarrow> int" where
  "round_half_even m =
     (let f = \<lfloor>m\<rfloor>; r = m - of_int f
      in if r < 1 / 2 then f else if 1 / 2 < r then f + 1 else if even f then f else f + 1)"

definition nearest_double :: "rat \<Rightarrow> rat" where
  "nearest_double x =
     (if of_int \<lfloor>x\<rfloor> = x \<and> \<bar>x\<bar> \<le> 2 ^ 53 then x
      else
        let e = floor_log2 \<bar>x\<bar> - 52;
            n = round_half_even (\<bar>x\<bar> / pow2 e)
        in sgn x * of_int n * pow2 e)"

definition js_add :: "rat \<Rightarrow> rat \<Rightarrow> rat" where
  "js_add x y = nearest_double (x + y)"

definition js_div :: "rat \<Rightarrow> rat \<Rightarrow> rat" where
  "js_div x y = nearest_double (x / y)"

record TokenPayload =
  token_agentId :: string
  token_agentName :: string
  token_permissions :: "Permission list"
  issuedAt :: rat
  expiresAt :: rat

text \<open>\<open>Pick<Agent, 'id' | 'name' | 'permissions'>\<close>.\<close>

record AgentIdentity =
  agent_id :: string
  agent_name :: string
  agent_permissions :: "Permission list"

record AuthService =
  secret :: string
  tokenExpiry :: rat

definition DEFAULT_TOKEN_EXPIRY :: rat where
  "DEFAULT_TOKEN_EXPIRY = 24 * 60 * 60 * 1000"

text \<open>\<open>LIMITS.TOKEN_MAX_LIFETIME_SECONDS\<close> of \<open>schemas/validation.ts\<close>, the 30 days; no function
  of the repository reads it.\<close>

definition TOKEN_MAX_LIFETIME_SECONDS :: int where
  "TOKEN_MAX_LIFETIME_SECONDS = 30 * 24 * 60 * 60"

text \<open>\<open>a || b\<close> on optional strings and numbers: the empty string, \<open>0\<close> and \<open>undefined\<close> are
  falsy.\<close>

definition or_string :: "string option \<Rightarrow> string \<Rightarrow> string" where
  "or_string a b = (case a of None \<Rightarrow> b | Some s \<Rightarrow> if s = [] then b else s)"

definition or_number :: "rat option \<Rightarrow> rat \<Rightarrow> rat" where
  "or_number a b = (case a of None \<Rightarrow> b | Some n \<Rightarrow> if n = 0 then b else n)"

text \<open>The constructor; \<open>env_JWT_SECRET\<close> is \<open>process.env.JWT_SECRET\<close>, \<open>uuid\<close> the value of
  \<open>uuid()\<close>.\<close>

definition new_AuthService :: "string option \<Rightarrow> rat option \<Rightarrow> string option \<Rightarrow> string \<Rightarrow> AuthService" where
  "new_AuthService secret_arg tokenExpiry_arg env_JWT_SECRET uuid =
     \<lparr>secret = or_string secret_arg (or_string env_JWT_SECRET uuid),
      tokenExpiry = or_number tokenExpiry_arg DEFAULT_TOKEN_EXPIRY\<rparr>"

text \<open>\<open>jwt.sign(payload, secret, {expiresIn})\<close> is the \<open>jsonwebtoken\<close> library's: an argument
  of \<open>generateToken\<close>, a function of the payload, the secret and \<open>expiresIn\<close> (in seconds) that
  answers with a token or with the error it throws.\<close>

type_synonym 'e jwt_sign = "TokenPayload \<Rightarrow> string \<Rightarrow> rat \<Rightarrow> 'e + string"

text \<open>\<open>generateToken(agent)\<close>; \<open>now\<close> is the value of \<open>Date.now()\<close>.\<close>

definition generateToken :: "'e jwt_sign \<Rightarrow> AuthService \<Rightarrow> AgentIdentity \<Rightarrow> rat \<Rightarrow> 'e + string" where
  "generateToken sign svc agent now =
     (let payload =
            \<lparr>token_agentId = agent_id agent,
             token_agentName = agent_name agent,
             token_permissions = agent_permissions agent,
             issuedAt = now,
             expiresAt = js_add now (tokenExpiry svc)\<rparr>
      in sign payload (secret svc) (js_div (tokenExpiry svc) 1000))"

text \<open>Examples: a service with the default lifetime, one configured with 31 days and one
  with 1500 milliseconds; an agent; and a signing function that, as the library does, throws
  when \<open>expiresIn\<close> is not a whole number and signs otherwise.\<close>

definition default_service :: AuthService where
  "default_service = new_AuthService (Some ''s3cret'') None None ''u''"

definition days31_service :: AuthService where
  "days31_service = new_AuthService (Some ''s3cret'') (Some (31 * 24 * 60 * 60 * 1000)) None ''u''"

definition ms1500_service :: AuthService where
  "ms1500_service = new_AuthService (Some ''s3cret'') (Some 1500) None ''u''"

definition example_agent :: AgentIdentity where
  "example_agent =
     \<lparr>agent_id = ''agent-1'', agent_name = ''Worker1'', agent_permissions = createDefaultPermissions\<rparr>"

definition example_jwt_sign :: "string jwt_sign" where
  "example_jwt_sign payload key seconds =
     (if of_int \<lfloor>seconds\<rfloor> = seconds then Inr (''jwt:'' @ token_agentId payload)
      else Inl ''\"expiresIn\" should be a number of seconds or string representing a timespan'')"

subsection \<open>PresenceService\<close>

datatype PresenceStatus = ONLINE | IDLE | BUSY | DO_NOT_DISTURB | OFFLINE

datatype ClientType = Cli | Web | Api | Bridge

datatype ActivityType = Working | Waiting | Processing | Custom

datatype DisconnectReason = Graceful | Timeout | Error | Kicked

record PresenceActivity =
  activity_type :: ActivityType
  activity_description :: "string option"
  contextId :: "string option"
  startedAt :: int

record PresenceConnection =
  connectionId :: string
  clientType :: ClientType
  clientVersion :: string
  connectedAt :: int
  ipAddress :: "string option"

text \<open>The timestamps of a presence are ISO strings written by \<open>new Date().toISOString()\<close> and
  read back by \<open>new Date(s).getTime()\<close>: here the milliseconds themselves.\<close>

record Presence =
  presence_agentId :: string
  presence_projectId :: string
  status :: PresenceStatus
  statusMessage :: "string option"
  activity :: "PresenceActivity option"
  lastHeartbeat :: int
  activeChannels :: "string list"
  isTyping :: bool
  typingInChannel :: "string option"
  connection :: PresenceConnection

record ConnectionInfo =
  info_connectionId :: "string option"
  info_clientType :: "ClientType option"
  info_clientVersion :: "string option"
  info_ipAddress :: "string option"

text \<open>The frames \<open>broadcastPresenceChange\<close> hands to \<open>relayClient.broadcast\<close>: agent, status,
  timestamp and the extra fields (\<open>{reason}\<close> or \<open>{previousStatus}\<close>).\<close>

datatype presence_extra = NoExtra | Reason DisconnectReason | PreviousStatus PresenceStatus

datatype presence_relay_call = BroadcastPresence string PresenceStatus int presence_extra

text \<open>The private fields. \<open>presences\<close> is a \<open>Map\<close>, which iterates in insertion order: an
  association list, written with \<open>set_presence\<close> (\<open>Map.set\<close>: in place for a key that is
  there, at the end for a new one) and \<open>delete_presence\<close>. The typing timers are left out.\<close>

record PresenceService =
  presences :: "(string \<times> Presence) list"
  ps_projectId :: string
  ps_relayClient :: "presence_relay_call list option"

fun set_presence :: "string \<Rightarrow> Presence \<Rightarrow> (string \<times> Presence) list \<Rightarrow> (string \<times> Presence) list" where
  "set_presence k v [] = [(k, v)]"
| "set_presence k v (p # ps) = (if fst p = k then (k, v) # ps else p # set_presence k v ps)"

definition delete_presence :: "string \<Rightarrow> (string \<times> Presence) list \<Rightarrow> (string \<times> Presence) list" where
  "delete_presence k ps = filter (\<lambda>p. fst p \<noteq> k) ps"

definition get_presence :: "PresenceService \<Rightarrow> string \<Rightarrow> Presence option" where
  "get_presence svc agent = map_of (presences svc) agent"

definition HEARTBEAT_INTERVAL :: int where
  "HEARTBEAT_INTERVAL = 30000"

definition IDLE_TIMEOUT :: int where
  "IDLE_TIMEOUT = 60000"

definition OFFLINE_TIMEOUT :: int where
  "OFFLINE_TIMEOUT = 120000"

definition new_PresenceService :: "string \<Rightarrow> presence_relay_call list option \<Rightarrow> PresenceService" where
  "new_PresenceService projectId relay =
     \<lparr>presences = [], ps_projectId = projectId, ps_relayClient = relay\<rparr>"

definition broadcastPresenceChange ::
  "string \<Rightarrow> PresenceStatus \<Rightarrow> presence_extra \<Rightarrow> int \<Rightarrow> PresenceService \<Rightarrow> PresenceService" where
  "broadcastPresenceChange agent st extra now svc =
     svc\<lparr>ps_relayClient :=
           map_option (\<lambda>calls. calls @ [BroadcastPresence agent st now extra]) (ps_relayClient svc)\<rparr>"

text \<open>In every method \<open>now\<close> is the clock in milliseconds at the call (\<open>new Date()\<close>,
  \<open>Date.now()\<close>); \<open>uuid\<close> is the value of \<open>uuid()\<close>.\<close>

definition connect ::
  "string \<Rightarrow> ConnectionInfo \<Rightarrow> int \<Rightarrow> string \<Rightarrow> PresenceService \<Rightarrow> Presence \<times> PresenceService" where
  "connect agent info now uuid svc =
     (let presence =
            \<lparr>presence_agentId = agent,
             presence_projectId = ps_projectId svc,
             status = ONLINE,
             statusMessage = None,
             activity = None,
             lastHeartbeat = now,
             activeChannels = [],
             isTyping = False,
             typingInChannel = None,
             connection =
               \<lparr>connectionId = or_string (info_connectionId info) uuid,
                clientType = (case info_clientType info of Some c \<Rightarrow> c | None \<Rightarrow> Api),
                clientVersion = or_string (info_clientVersion info) ''1.0.0'',
                connectedAt = now,
                ipAddress = info_ipAddress info\<rparr>\<rparr>
      in (presence,
          broadcastPresenceChange agent ONLINE NoExtra now
            (svc\<lparr>presences := set_presence agent presence (presences svc)\<rparr>)))"

definition disconnect :: "string \<Rightarrow> DisconnectReason \<Rightarrow> int \<Rightarrow> PresenceService \<Rightarrow> PresenceService" where
  "disconnect agent reason now svc =
     (case get_presence svc agent of
        None \<Rightarrow> svc
      | Some presence \<Rightarrow>
          let svc1 = svc\<lparr>presences :=
                       set_presence agent (presence\<lparr>status := OFFLINE\<rparr>) (presences svc)\<rparr>;
              svc2 = broadcastPresenceChange agent OFFLINE (Reason reason) now svc1
          in svc2\<lparr>presences := delete_presence agent (presences svc2)\<rparr>)"

definition setStatus ::
  "string \<Rightarrow> PresenceStatus \<Rightarrow> string option \<Rightarrow> int \<Rightarrow> PresenceService \<Rightarrow> bool \<times> PresenceService" where
  "setStatus agent st message now svc =
     (case get_presence svc agent of
        None \<Rightarrow> (False, svc)
      | Some presence \<Rightarrow>
          let previousStatus = status presence;
              presence' = presence\<lparr>status := st, statusMessage := message, lastHeartbeat := now\<rparr>;
              svc1 = svc\<lparr>presences := set_presence agent presence' (presences svc)\<rparr>
          in (True,
              if previousStatus \<noteq> st
              then broadcastPresenceChange agent st (PreviousStatus previousStatus) now svc1
              else svc1))"

definition heartbeat ::
  "string \<Rightarrow> string list option \<Rightarrow> int \<Rightarrow> PresenceService \<Rightarrow> bool \<times> PresenceService" where
  "heartbeat agent active now svc =
     (case get_presence svc agent of
        None \<Rightarrow> (False, svc)
      | Some presence \<Rightarrow>
          let p1 = presence\<lparr>lastHeartbeat := now\<rparr>;
              p2 = (case active of Some cs \<Rightarrow> p1\<lparr>activeChannels := cs\<rparr> | None \<Rightarrow> p1);
              svc1 = svc\<lparr>presences := set_presence agent p2 (presences svc)\<rparr>
          in (True,
              if status p2 = IDLE then snd (setStatus agent ONLINE None now svc1) else svc1))"

text \<open>\<open>checkHeartbeats\<close>: \<open>now\<close> is read once, then the entries of the map are visited in
  order. A visit changes or deletes the visited entry only, so the keys visited are the
  keys at the start; each is looked up when its turn comes.\<close>

definition checkHeartbeat_of :: "string \<Rightarrow> int \<Rightarrow> PresenceService \<Rightarrow> PresenceService" where
  "checkHeartbeat_of agent now svc =
     (case get_presence svc agent of
        None \<Rightarrow> svc
      | Some presence \<Rightarrow>
          let elapsed = now - lastHeartbeat presence
          in if elapsed > OFFLINE_TIMEOUT \<and> status presence \<noteq> OFFLINE then
               disconnect agent Timeout now svc
             else if elapsed > IDLE_TIMEOUT \<and> status presence = ONLINE then
               snd (setStatus agent IDLE None now svc)
             else svc)"

fun checkHeartbeats_loop :: "string list \<Rightarrow> int \<Rightarrow> PresenceService \<Rightarrow> PresenceService" where
  "checkHeartbeats_loop [] now svc = svc"
| "checkHeartbeats_loop (agent # agents) now svc =
     checkHeartbeats_loop agents now (checkHeartbeat_of agent now svc)"

definition checkHeartbeats :: "int \<Rightarrow> PresenceService \<Rightarrow> PresenceService" where
  "checkHeartbeats now svc = checkHeartbeats_loop (map fst (presences svc)) now svc"

text \<open>What one run of the checker at time \<open>now\<close> makes of one entry of the presence map.\<close>

definition checked :: "int \<Rightarrow> Presence option \<Rightarrow> Presence option" where
  "checked now entry =
     (case entry of
        None \<Rightarrow> None
      | Some p \<Rightarrow>
          if now - lastHeartbeat p > 120000 \<and> status p \<noteq> OFFLINE then None
          else if now - lastHeartbeat p > 60000 \<and> status p = ONLINE then
            Some (p\<lparr>status := IDLE, statusMessage := None, lastHeartbeat := now\<rparr>)
          else Some p)"

text \<open>The checker runs at the given times, in order, with no other call in between.\<close>

fun run_checker :: "int list \<Rightarrow> PresenceService \<Rightarrow> PresenceService" where
  "run_checker [] svc = svc"
| "run_checker (t # ts) svc = run_checker ts (checkHeartbeats t svc)"

text \<open>An agent that connects at time 0 to a fresh service with relay and never sends a
  heartbeat.\<close>

definition silent_agent :: PresenceService where
  "silent_agent =
     snd (connect ''agent-1''
       \<lparr>info_connectionId = None, info_clientType = None, info_clientVersion = None,
        info_ipAddress = None\<rparr> 0 ''c1'' (new_PresenceService ''proj'' (Some [])))"

subsection \<open>RelayClient: acknowledgements\<close>

datatype ReadyState = CONNECTING | OPEN | CLOSING | CLOSED

text \<open>A frame: its \<open>type\<close>, \<open>event\<close>, \<open>data\<close> and \<open>timestamp\<close> as one value, and the
  \<open>correlationId\<close> that \<open>sendWithAck\<close> writes.\<close>

record WSMessage =
  ws_body :: json
  ws_correlationId :: "string option"

text \<open>A call of \<open>sendWithAck\<close> creates a promise and a timer. The runtime numbers them: the
  call made when \<open>next_handle\<close> is \<open>n\<close> creates promise \<open>n\<close> and timer \<open>n\<close>. A \<open>PendingAck\<close>
  holds the promise that its \<open>resolve\<close> and \<open>reject\<close> settle, and the timer.\<close>

record PendingAck =
  ack_promise :: nat
  ack_timeout :: nat

text \<open>An armed timer: its delay and what its callback closes over.\<close>

record AckTimer =
  timer_delay :: int
  timer_correlationId :: string
  timer_agentId :: string
  timer_promise :: nat

datatype settle_call = Resolve json | Reject string

text \<open>The fields \<open>connections\<close> (each socket by its \<open>readyState\<close>) and \<open>pendingAcks\<close>, and of
  the runtime: the armed timers, every call of a promise's \<open>resolve\<close> or \<open>reject\<close> in the
  order made (a promise is settled by the first call on it), and the frames written to the
  sockets.\<close>

record RelayClient =
  connections :: "string \<rightharpoonup> ReadyState"
  pendingAcks :: "string \<rightharpoonup> PendingAck"
  timers :: "nat \<rightharpoonup> AckTimer"
  next_handle :: nat
  settle_calls :: "(nat \<times> settle_call) list"
  written :: "(string \<times> WSMessage) list"

definition new_RelayClient :: RelayClient where
  "new_RelayClient =
     \<lparr>connections = Map.empty, pendingAcks = Map.empty, timers = Map.empty, next_handle = 0,
      settle_calls = [], written = []\<rparr>"

definition sendToAgent :: "string \<Rightarrow> WSMessage \<Rightarrow> RelayClient \<Rightarrow> RelayClient" where
  "sendToAgent agent message rc =
     (if connections rc agent = Some OPEN then rc\<lparr>written := written rc @ [(agent, message)]\<rparr>
      else rc)"

text \<open>\<open>sendWithAck(agentId, message, timeoutMs = 5000)\<close>; \<open>uuid\<close> is the value of \<open>uuid()\<close>.
  The result is the promise returned.\<close>

definition sendWithAck ::
  "string \<Rightarrow> WSMessage \<Rightarrow> int option \<Rightarrow> string \<Rightarrow> RelayClient \<Rightarrow> nat \<times> RelayClient" where
  "sendWithAck agent message timeoutMs uuid rc =
     (let correlation = uuid;
          message' = message\<lparr>ws_correlationId := Some correlation\<rparr>;
          h = next_handle rc;
          rc1 = rc\<lparr>next_handle := Suc h,
                   timers := (timers rc)(h \<mapsto>
                     \<lparr>timer_delay = (case timeoutMs of None \<Rightarrow> 5000 | Some t \<Rightarrow> t),
                      timer_correlationId = correlation, timer_agentId = agent,
                      timer_promise = h\<rparr>)\<rparr>;
          rc2 = rc1\<lparr>pendingAcks := (pendingAcks rc1)(correlation \<mapsto>
                     \<lparr>ack_promise = h, ack_timeout = h\<rparr>)\<rparr>
      in (h, sendToAgent agent message' rc2))"

text \<open>\<open>handleAck(correlationId, data)\<close>, called for a frame of type \<open>ack\<close>, whose
  \<open>correlationId\<close> may be missing.\<close>

definition handleAck :: "string option \<Rightarrow> json \<Rightarrow> RelayClient \<Rightarrow> RelayClient" where
  "handleAck correlation d rc =
     (case correlation of
        None \<Rightarrow> rc
      | Some c \<Rightarrow>
          (case pendingAcks rc c of
             None \<Rightarrow> rc
           | Some pending \<Rightarrow>
               rc\<lparr>timers := (timers rc)(ack_timeout pending := None),
                   settle_calls := settle_calls rc @ [(ack_promise pending, Resolve d)],
                   pendingAcks := (pendingAcks rc)(c := None)\<rparr>))"

text \<open>The runtime runs the callback of timer \<open>h\<close> when its delay has passed: once, and only
  if the timer is still armed (\<open>clearTimeout\<close> disarms it).\<close>

definition timer_fires :: "nat \<Rightarrow> RelayClient \<Rightarrow> RelayClient" where
  "timer_fires h rc =
     (case timers rc h of
        None \<Rightarrow> rc
      | Some t \<Rightarrow>
          rc\<lparr>timers := (timers rc)(h := None),
              pendingAcks := (pendingAcks rc)(timer_correlationId t := None),
              settle_calls := settle_calls rc @
                [(timer_promise t, Reject (''Timeout waiting for ack from '' @ timer_agentId t))]\<rparr>)"

text \<open>What happens to a relay client, one event after the other.\<close>

datatype relay_event =
    AckFrame "string option" json
  | TimerFires nat
  | SendWithAck string WSMessage "int option" string

fun relay_step :: "relay_event \<Rightarrow> RelayClient \<Rightarrow> RelayClient" where
  "relay_step (AckFrame correlation d) rc = handleAck correlation d rc"
| "relay_step (TimerFires h) rc = timer_fires h rc"
| "relay_step (SendWithAck agent message timeoutMs uuid) rc =
     snd (sendWithAck agent message timeoutMs uuid rc)"

fun relay_run :: "relay_event list \<Rightarrow> RelayClient \<Rightarrow> RelayClient" where
  "relay_run [] rc = rc"
| "relay_run (ev # evs) rc = relay_run evs (relay_step ev rc)"

text \<open>The run gives every \<open>sendWithAck\<close> a correlation id that is not in the table at the call
  and is not \<open>c\<close>: what \<open>uuid()\<close> promises.\<close>

fun fresh_ids :: "string \<Rightarrow> relay_event list \<Rightarrow> RelayClient \<Rightarrow> bool" where
  "fresh_ids c [] rc = True"
| "fresh_ids c (ev # evs) rc =
     ((case ev of
         SendWithAck agent message timeoutMs uuid \<Rightarrow> uuid \<noteq> c \<and> pendingAcks rc uuid = None
       | _ \<Rightarrow> True)
      \<and> fresh_ids c evs (relay_step ev rc))"

text \<open>The calls made on promise \<open>h\<close>, in order.\<close>

definition calls_on :: "nat \<Rightarrow> RelayClient \<Rightarrow> settle_call list" where
  "calls_on h rc = map snd (filter (\<lambda>x. fst x = h) (settle_calls rc))"

text \<open>The first event of a run that concerns the call with correlation id \<open>c\<close>, promise and
  timer \<open>h\<close>, made for \<open>agent\<close>: an \<open>ack\<close> frame with \<open>c\<close>, or the timer firing; and the
  settlement it brings.\<close>

fun first_settlement :: "string \<Rightarrow> nat \<Rightarrow> string \<Rightarrow> relay_event list \<Rightarrow> settle_call option" where
  "first_settlement c h agent [] = None"
| "first_settlement c h agent (AckFrame correlation d # evs) =
     (if correlation = Some c then Some (Resolve d) else first_settlement c h agent evs)"
| "first_settlement c h agent (TimerFires h' # evs) =
     (if h' = h then Some (Reject (''Timeout waiting for ack from '' @ agent))
      else first_settlement c h agent evs)"
| "first_settlement c h agent (SendWithAck a m t u # evs) = first_settlement c h agent evs"

text \<open>The table and the timers agree: an entry of the table names an armed timer that closes
  over the entry's key and promise, an armed timer has a handle already given out and its
  entry in the table, and no call was made on a promise not yet created.\<close>

definition acks_inv :: "RelayClient \<Rightarrow> bool" where
  "acks_inv rc =
     ((\<forall>c p. pendingAcks rc c = Some p \<longrightarrow>
         (\<exists>t. timers rc (ack_timeout p) = Some t \<and> timer_correlationId t = c
               \<and> timer_promise t = ack_promise p))
      \<and> (\<forall>h t. timers rc h = Some t \<longrightarrow>
           h < next_handle rc \<and> timer_promise t = h
           \<and> pendingAcks rc (timer_correlationId t) = Some \<lparr>ack_promise = h, ack_timeout = h\<rparr>)
      \<and> (\<forall>x \<in> set (settle_calls rc). fst x < next_handle rc))"

text \<open>Example: on a fresh client with an open socket to \<open>agentB\<close>, a call with timeout 1000
  and correlation id \<open>c-1\<close>.\<close>

definition example_relay :: RelayClient where
  "example_relay = new_RelayClient\<lparr>connections := [''agentB'' \<mapsto> OPEN]\<rparr>"

definition example_frame :: WSMessage where
  "example_frame = \<lparr>ws_body = JObj [(''type'', JStr ''message'')], ws_correlationId = None\<rparr>"

text \<open>The two phases of the call with correlation id \<open>c\<close>, promise and timer \<open>h\<close>: waiting
  (in the table, timer armed, no call made on the promise) and over (not in the table,
  timer not armed).\<close>

definition ack_waiting :: "string \<Rightarrow> nat \<Rightarrow> string \<Rightarrow> RelayClient \<Rightarrow> bool" where
  "ack_waiting c h agent rc =
     (pendingAcks rc c = Some \<lparr>ack_promise = h, ack_timeout = h\<rparr>
      \<and> (\<exists>t. timers rc h = Some t \<and> timer_correlationId t = c \<and> timer_agentId t = agent
               \<and> timer_promise t = h)
      \<and> calls_on h rc = [])"

definition ack_over :: "string \<Rightarrow> nat \<Rightarrow> RelayClient \<Rightarrow> bool" where
  "ack_over c h rc = (pendingAcks rc c = None \<and> timers rc h = None \<and> h < next_handle rc)"

section \<open>Properties\<close>

subsection \<open>JavaScript helpers\<close>

lemma includes_iff: "js_includes xs x \<longleftrightarrow> x \<in> set xs"
  by (induction xs) auto

lemma endsWith_iff_suffix: "endsWith s t \<longleftrightarrow> suffix t s"
proof
  assume "endsWith s t"
  then have "s = take (length s - length t) s @ t"
    by (metis append_take_drop_id endsWith_def)
  then show "suffix t s"
    by (metis suffixI)
next
  assume "suffix t s"
  then obtain u where "s = u @ t"
    by (auto simp: suffix_def)
  then show "endsWith s t"
    by (simp add: endsWith_def)
qed

lemma startsWith_iff_prefix: "startsWith s t \<longleftrightarrow> prefix t s"
proof
  assume "startsWith s t"
  then have "s = t @ drop (length t) s"
    by (metis append_take_drop_id startsWith_def)
  then show "prefix t s"
    by (metis prefixI)
next
  assume "prefix t s"
  then obtain u where "s = t @ u"
    by (auto simp: prefix_def)
  then show "startsWith s t"
    by (simp add: startsWith_def)
qed

lemma slice_0_neg1_butlast: "slice_0_neg1 s = butlast s"
  by (simp add: slice_0_neg1_def butlast_conv_take)

subsection \<open>Permission checks\<close>

lemma matchResource_iff:
  "matchResource pattern res \<longleftrightarrow>
     pattern = ''*'' \<or> pattern = res \<or> (suffix '':*'' pattern \<and> prefix (butlast pattern) res)"
  by (simp add: matchResource_def endsWith_iff_suffix startsWith_iff_prefix slice_0_neg1_butlast)

lemma checkPermissions_iff:
  "checkPermissions perms res action \<longleftrightarrow>
     (\<exists>p \<in> set perms. matchResource (resource p) res
        \<and> (action \<in> set (actions p) \<or> Admin \<in> set (actions p)))"
  by (induction perms) (auto simp: includes_iff)

text \<open>
  C2. \<open>checkPermissions(permissions, resource, action)\<close> is true exactly when some permission
  of the list has a pattern matching the resource (the pattern is \<open>*\<close>, or equals the
  resource, or ends in \<open>:*\<close> and the resource starts with the pattern minus its last
  character) and an action list that holds the requested action or \<open>admin\<close>. In particular
  the single permission \<open>{resource: '*', actions: ['admin']}\<close> authorizes every action on
  every resource.
\<close>

theorem checkPermissions_spec:
  "(checkPermissions perms res action \<longleftrightarrow>
      (\<exists>p \<in> set perms.
         (resource p = ''*'' \<or> resource p = res
            \<or> (suffix '':*'' (resource p) \<and> prefix (butlast (resource p)) res))
         \<and> (action \<in> set (actions p) \<or> Admin \<in> set (actions p))))
   \<and> checkPermissions [\<lparr>resource = ''*'', actions = [Admin]\<rparr>] res action"
  by (simp add: checkPermissions_iff matchResource_iff)

subsection \<open>Channel access\<close>

lemma accessLevelSatisfies_rank:
  "accessLevelSatisfies actual required \<longleftrightarrow> level_rank required \<le> level_rank actual"
  by (cases actual; cases required) (simp_all add: accessLevelSatisfies_def)

lemma checkAccessRules_find:
  "checkAccessRules rules agentId requiredLevel =
     map_option (\<lambda>r. accessLevelSatisfies (level r) requiredLevel)
       (find (\<lambda>r. matchRule r agentId) rules)"
  by (induction rules) simp_all

lemma matchRule_iff:
  "matchRule r agentId \<longleftrightarrow>
     principalType r = P_all \<or> (principalType r = P_agent \<and> principal r = agentId)"
  by (simp add: matchRule_def)

text \<open>
  C1. For a channel of the table, \<open>checkAccess(channelId, agentId, requiredLevel)\<close> is the
  verdict of the first rule, in list order, whose principal matches the agent (type \<open>all\<close>
  matches every agent, type \<open>agent\<close> only the agent named), the verdict being that the
  rule's level is at least the required one in the order read < write < admin; with no
  matching rule it is the same verdict on \<open>defaultAccess\<close>, and false when \<open>defaultAccess\<close>
  is null, so that read access is then refused.
\<close>

theorem checkAccess_first_match:
  assumes "channels svc channelId = Some channel"
  shows "checkAccess svc channelId agentId requiredLevel =
           (case find (\<lambda>r. principalType r = P_all
                          \<or> (principalType r = P_agent \<and> principal r = agentId))
                   (accessRules channel) of
              Some r \<Rightarrow> level_rank requiredLevel \<le> level_rank (level r)
            | None \<Rightarrow>
                (case defaultAccess channel of
                   Some d \<Rightarrow> level_rank requiredLevel \<le> level_rank d
                 | None \<Rightarrow> False))
         \<and> (defaultAccess channel = None
              \<and> (\<forall>r \<in> set (accessRules channel).
                    \<not> (principalType r = P_all
                        \<or> (principalType r = P_agent \<and> principal r = agentId)))
              \<longrightarrow> \<not> checkAccess svc channelId agentId READ)"
proof -
  let ?m = "\<lambda>r. principalType r = P_all \<or> (principalType r = P_agent \<and> principal r = agentId)"
  have m: "(\<lambda>r. matchRule r agentId) = ?m"
    by (simp add: matchRule_iff fun_eq_iff)
  have first: "checkAccess svc channelId agentId lv =
           (case find ?m (accessRules channel) of
              Some r \<Rightarrow> level_rank lv \<le> level_rank (level r)
            | None \<Rightarrow>
                (case defaultAccess channel of
                   Some d \<Rightarrow> level_rank lv \<le> level_rank d
                 | None \<Rightarrow> False))" for lv
    using assms
    by (simp add: checkAccess_def checkAccessRules_find m accessLevelSatisfies_rank
        split: option.splits)
  have "\<not> checkAccess svc channelId agentId READ"
    if "defaultAccess channel = None" and "\<forall>r \<in> set (accessRules channel). \<not> ?m r"
  proof -
    from that(2) have "find ?m (accessRules channel) = None"
      by (simp add: find_None_iff)
    with that(1) show ?thesis
      by (simp add: first)
  qed
  with first show ?thesis
    by blast
qed

lemmas channel_service_defs =
  new_ChannelService_def createDefaultChannels_def create_def createDefaultAccessRules_def
  spread_metadata_def addAccessRule_def Let_def

theorem checkAccess_first_match_witness:
  "\<not> checkAccess ops_service ''ch-3'' ''Worker1'' READ
   \<and> checkAccess ops_service_with_rule ''ch-3'' ''Worker1'' WRITE
   \<and> \<not> checkAccess ops_service_with_rule ''ch-3'' ''Worker2'' READ
   \<and> \<not> checkAccess ops_service_with_rule ''ch-3'' ''Worker1'' ADMIN"
proof -
  let ?c = "the (channels ops_service ''ch-3'')"
  let ?d = "the (channels ops_service_with_rule ''ch-3'')"
  have c: "channels ops_service ''ch-3'' = Some ?c"
    by (simp add: ops_service_def channel_service_defs)
  have d: "channels ops_service_with_rule ''ch-3'' = Some ?d"
    by (simp add: ops_service_with_rule_def ops_service_def channel_service_defs)
  have c_fields: "defaultAccess ?c = None" "accessRules ?c = []"
    by (simp_all add: ops_service_def channel_service_defs)
  have d_fields: "defaultAccess ?d = None"
    "accessRules ?d =
       [\<lparr>principal = ''Worker1'', principalType = P_agent, level = WRITE, rule_expiresAt = None\<rparr>]"
    by (simp_all add: ops_service_with_rule_def ops_service_def channel_service_defs)
  show ?thesis
    using checkAccess_first_match [OF c, of "''Worker1''" READ]
      checkAccess_first_match [OF d, of "''Worker1''" WRITE]
      checkAccess_first_match [OF d, of "''Worker2''" READ]
      checkAccess_first_match [OF d, of "''Worker1''" ADMIN]
    by (simp add: c_fields d_fields)
qed

subsection \<open>Membership\<close>

lemma set_has_iff: "set_has s x \<longleftrightarrow> x \<in> set s"
  by (simp add: set_has_def includes_iff)

lemma relay_notify_fields [simp]:
  "channels (relay_notify c svc) = channels svc"
  "memberships (relay_notify c svc) = memberships svc"
  "nameIndex (relay_notify c svc) = nameIndex svc"
  by (simp_all add: relay_notify_def)

lemma member_count_invD:
  assumes "member_count_inv svc" and "channels svc cid = Some channel"
    and "memberships svc cid = Some members"
  shows "distinct members" and "memberCount channel = set_size members"
proof -
  from assms(1,2) obtain ms where
    "memberships svc cid = Some ms" "distinct ms" "memberCount channel = set_size ms"
    unfolding member_count_inv_def by blast
  with assms(3) show "distinct members" and "memberCount channel = set_size members"
    by simp_all
qed

lemma distinct_count_list_1: "distinct xs \<Longrightarrow> x \<in> set xs \<Longrightarrow> count_list xs x = 1"
  by (induction xs) auto

lemma checkAccess_cong:
  assumes "map_option (\<lambda>c. (accessRules c, defaultAccess c)) (channels svc' cid)
    = map_option (\<lambda>c. (accessRules c, defaultAccess c)) (channels svc cid)"
  shows "checkAccess svc' cid agentId lv = checkAccess svc cid agentId lv"
  using assms by (auto simp: checkAccess_def split: option.splits)

lemma create_inv:
  assumes "member_count_inv svc"
  shows "member_count_inv (snd (create input by uuid now svc))"
  using assms
  by (auto simp: member_count_inv_def create_def Let_def set_size_def)

lemma join_inv:
  assumes "member_count_inv svc"
  shows "member_count_inv (snd (join channelId agentId svc))"
proof (cases "\<exists>channel members. channels svc channelId = Some channel
    \<and> checkAccess svc channelId agentId READ
    \<and> memberships svc channelId = Some members \<and> \<not> set_has members agentId")
  case True
  then obtain channel members where h:
    "channels svc channelId = Some channel" "checkAccess svc channelId agentId READ"
    "memberships svc channelId = Some members" "\<not> set_has members agentId"
    by blast
  from assms h have "distinct members"
    by (auto dest: member_count_invD)
  with h assms show ?thesis
    by (auto simp: member_count_inv_def join_def Let_def set_size_def set_add_def set_has_iff)
next
  case False
  then have "snd (join channelId agentId svc) = svc"
    by (auto simp: join_def split: option.splits)
  with assms show ?thesis
    by simp
qed

lemma leave_inv:
  assumes "member_count_inv svc"
  shows "member_count_inv (snd (leave channelId agentId svc))"
proof (cases "\<exists>channel members. channels svc channelId = Some channel
    \<and> memberships svc channelId = Some members \<and> set_has members agentId")
  case True
  then obtain channel members where h:
    "channels svc channelId = Some channel"
    "memberships svc channelId = Some members" "set_has members agentId"
    by blast
  from assms h have "distinct members"
    by (auto dest: member_count_invD)
  with h assms show ?thesis
    by (auto simp: member_count_inv_def leave_def Let_def set_size_def set_delete_def)
next
  case False
  then have "snd (leave channelId agentId svc) = svc"
    by (auto simp: leave_def split: option.splits)
  with assms show ?thesis
    by simp
qed

lemma apply_channel_op_inv:
  "member_count_inv svc \<Longrightarrow> member_count_inv (apply_channel_op op svc)"
  by (cases op) (simp_all add: create_inv join_inv leave_inv)

lemma run_channel_ops_inv:
  "member_count_inv svc \<Longrightarrow> member_count_inv (run_channel_ops ops svc)"
  by (induction ops arbitrary: svc) (simp_all add: apply_channel_op_inv)

lemma new_ChannelService_inv:
  "member_count_inv (new_ChannelService projectId relay uuid1 now1 uuid2 now2)"
proof -
  have "member_count_inv
      \<lparr>channels = Map.empty, nameIndex = Map.empty, memberships = Map.empty,
       cs_projectId = projectId, cs_relayClient = relay\<rparr>"
    by (simp add: member_count_inv_def)
  then show ?thesis
    unfolding new_ChannelService_def createDefaultChannels_def Let_def
    by (intro create_inv)
qed

text \<open>A second \<open>join\<close> of the same agent changes nothing and answers as the first did.\<close>

lemma join_twice:
  "join channelId agentId (snd (join channelId agentId svc)) =
     (fst (join channelId agentId svc), snd (join channelId agentId svc))"
proof (cases "\<exists>channel members. channels svc channelId = Some channel
    \<and> checkAccess svc channelId agentId READ
    \<and> memberships svc channelId = Some members \<and> \<not> set_has members agentId")
  case True
  then obtain channel members where h:
    "channels svc channelId = Some channel" "checkAccess svc channelId agentId READ"
    "memberships svc channelId = Some members" "\<not> set_has members agentId"
    by blast
  let ?svc1 = "snd (join channelId agentId svc)"
  have r: "fst (join channelId agentId svc) = Inr True"
    using h by (simp add: join_def Let_def)
  have m: "memberships ?svc1 channelId = Some (members @ [agentId])"
    using h by (simp add: join_def Let_def set_add_def)
  have c: "channels ?svc1 channelId = Some (channel\<lparr>memberCount := Suc (length members)\<rparr>)"
    using h by (simp add: join_def Let_def set_add_def set_size_def)
  have a: "checkAccess ?svc1 channelId agentId READ"
    using checkAccess_cong [of ?svc1 channelId svc agentId READ] c h(1) h(2) by simp
  have "join channelId agentId ?svc1 = (Inr True, ?svc1)"
    using m c a by (simp add: join_def set_has_iff)
  with r show ?thesis
    by simp
next
  case False
  then have "snd (join channelId agentId svc) = svc"
    by (auto simp: join_def split: option.splits)
  then show ?thesis
    by (metis prod.collapse)
qed

lemma join_member_once:
  assumes "member_count_inv svc" and "fst (join channelId agentId svc) = Inr True"
  shows "\<exists>channel members.
           channels (snd (join channelId agentId svc)) channelId = Some channel
           \<and> memberships (snd (join channelId agentId svc)) channelId = Some members
           \<and> memberCount channel = set_size members
           \<and> count_list members agentId = 1"
proof -
  let ?svc1 = "snd (join channelId agentId svc)"
  from assms(1) have inv1: "member_count_inv ?svc1"
    by (rule join_inv)
  from assms(2) obtain channel members where h:
    "channels svc channelId = Some channel" "memberships svc channelId = Some members"
    by (auto simp: join_def split: option.splits if_splits)
  from assms(2) h obtain channel1 where c1: "channels ?svc1 channelId = Some channel1"
    by (auto simp: join_def Let_def split: if_splits)
  with inv1 obtain members1 where m1:
    "memberships ?svc1 channelId = Some members1" "distinct members1"
    "memberCount channel1 = set_size members1"
    by (auto simp: member_count_inv_def)
  from assms(2) h m1(1) have "agentId \<in> set members1"
    by (auto simp: join_def Let_def set_add_def set_has_iff split: if_splits)
  with m1(2) have "count_list members1 agentId = 1"
    by (simp add: distinct_count_list_1)
  with c1 m1 show ?thesis
    by blast
qed

text \<open>
  C7. After the constructor and any sequence of \<open>create\<close>, \<open>join\<close> and \<open>leave\<close> calls, every
  channel's \<open>memberCount\<close> is the size of its membership set. On such a service a second
  \<open>join(channelId, agentId)\<close> changes nothing (so \<open>memberCount\<close> stays what the first call
  made it) and answers as the first did, and after a \<open>join\<close> that returned true the agent
  is in the channel's membership set exactly once.
\<close>

theorem memberCount_invariant_join_idempotent:
  fixes ops :: "channel_op list" and projectId relay uuid1 now1 uuid2 now2
  defines "svc \<equiv> run_channel_ops ops (new_ChannelService projectId relay uuid1 now1 uuid2 now2)"
  shows "member_count_inv svc
    \<and> snd (join channelId agentId (snd (join channelId agentId svc)))
        = snd (join channelId agentId svc)
    \<and> fst (join channelId agentId (snd (join channelId agentId svc)))
        = fst (join channelId agentId svc)
    \<and> (fst (join channelId agentId svc) = Inr True \<longrightarrow>
         (\<exists>channel members.
            channels (snd (join channelId agentId svc)) channelId = Some channel
            \<and> memberships (snd (join channelId agentId svc)) channelId = Some members
            \<and> memberCount channel = set_size members
            \<and> count_list members agentId = 1))"
proof -
  have inv: "member_count_inv svc"
    unfolding svc_def by (intro run_channel_ops_inv new_ChannelService_inv)
  show ?thesis
    using inv join_member_once [OF inv] by (simp add: join_twice)
qed

theorem memberCount_invariant_join_idempotent_witness:
  "member_count_inv membership_example
   \<and> fst (join ''ch-1'' ''a3'' membership_example) = Inr True
   \<and> memberships (snd (join ''ch-1'' ''a3'' membership_example)) ''ch-1'' = Some [''a1'', ''a3'']
   \<and> map_option memberCount (channels (snd (join ''ch-1'' ''a3'' membership_example)) ''ch-1'')
       = Some 2
   \<and> snd (join ''ch-1'' ''a3'' (snd (join ''ch-1'' ''a3'' membership_example)))
       = snd (join ''ch-1'' ''a3'' membership_example)"
proof -
  have m: "memberships membership_example ''ch-1'' = Some [''a1'']"
    by (simp add: membership_example_def channel_service_defs join_def leave_def checkAccess_def
        matchRule_def accessLevelSatisfies_def set_has_def set_add_def set_delete_def
        set_size_def relay_notify_def)
  have c: "map_option accessRules (channels membership_example ''ch-1'')
      = Some [\<lparr>principal = ''*'', principalType = P_all, level = WRITE, rule_expiresAt = None\<rparr>]"
    by (simp add: membership_example_def channel_service_defs join_def leave_def checkAccess_def
        matchRule_def accessLevelSatisfies_def set_has_def set_add_def set_delete_def
        set_size_def relay_notify_def)
  then obtain channel where ch: "channels membership_example ''ch-1'' = Some channel"
    "accessRules channel
      = [\<lparr>principal = ''*'', principalType = P_all, level = WRITE, rule_expiresAt = None\<rparr>]"
    by auto
  have j: "fst (join ''ch-1'' ''a3'' membership_example) = Inr True"
    using m ch
    by (simp add: join_def checkAccess_def matchRule_def accessLevelSatisfies_def set_has_def
        Let_def)
  have m': "memberships (snd (join ''ch-1'' ''a3'' membership_example)) ''ch-1''
      = Some [''a1'', ''a3'']"
    using m ch
    by (simp add: join_def checkAccess_def matchRule_def accessLevelSatisfies_def set_has_def
        set_add_def Let_def)
  have c': "map_option memberCount (channels (snd (join ''ch-1'' ''a3'' membership_example)) ''ch-1'')
       = Some 2"
    using m ch
    by (simp add: join_def checkAccess_def matchRule_def accessLevelSatisfies_def set_has_def
        set_add_def set_size_def Let_def)
  show ?thesis
    using memberCount_invariant_join_idempotent
      [of "[Join ''ch-1'' ''a1'', Join ''ch-1'' ''a1'', Join ''ch-1'' ''a2'', Leave ''ch-1'' ''a2'']"
          "''proj''" "Some []" "''1''" "''2026-01-01T00:00:00.000Z''" "''2''"
          "''2026-01-01T00:00:00.000Z''" "''ch-1''" "''a3''"]
      j m' c'
    by (simp add: membership_example_def)
qed

subsection \<open>Messages\<close>

lemma relay_call_fields [simp]:
  "messages (relay_call c svc) = messages svc"
  "channelMessages (relay_call c svc) = channelMessages svc"
  "threadMessages (relay_call c svc) = threadMessages svc"
  "signingKey (relay_call c svc) = signingKey svc"
  "channelService (relay_call c svc) = channelService svc"
  "ms_projectId (relay_call c svc) = ms_projectId svc"
  by (simp_all add: relay_call_def)

lemma broadcastMessage_fields [simp]:
  "messages (broadcastMessage m t svc) = messages svc"
  "channelMessages (broadcastMessage m t svc) = channelMessages svc"
  "threadMessages (broadcastMessage m t svc) = threadMessages svc"
  "signingKey (broadcastMessage m t svc) = signingKey svc"
  "channelService (broadcastMessage m t svc) = channelService svc"
  "ms_projectId (broadcastMessage m t svc) = ms_projectId svc"
  by (simp_all add: broadcastMessage_def split: TargetType.splits)

lemma send_signingKey: "signingKey (snd (send hmac input sender uuid now nowMs svc)) = signingKey svc"
  by (simp add: send_def Let_def split: option.splits)


lemma signMessage_key:
  "signingKey svc' = signingKey svc \<Longrightarrow> signMessage hmac svc' = signMessage hmac svc"
  by (simp add: signMessage_def fun_eq_iff)





lemma send_verifies:
  assumes "fst (send hmac input sender uuid now nowMs svc) = Inr message"
  shows "verifySignature hmac (snd (send hmac input sender uuid now nowMs svc)) message"
proof -
  let ?svc' = "snd (send hmac input sender uuid now nowMs svc)"
  have k: "signMessage hmac ?svc' = signMessage hmac svc"
    by (rule signMessage_key) (rule send_signingKey)
  from assms have "signature message =
      signMessage hmac svc (message_id message) (senderId message) (content message) (sentAt message)"
    by (auto simp: send_def Let_def split: if_splits)
  then show ?thesis
    by (simp add: verifySignature_def k)
qed



lemma edit_success:
  assumes "fst (edit hmac messageId newText editorId now nowMs svc) = Inr True"
  shows "\<exists>message. messages svc messageId = Some message \<and> senderId message = editorId
    \<and> messages (snd (edit hmac messageId newText editorId now nowMs svc)) messageId =
      Some (message\<lparr>content := (content message)\<lparr>content_text := newText\<rparr>,
                    editedAt := Some now,
                    signature := signMessage hmac svc (message_id message) (senderId message)
                       ((content message)\<lparr>content_text := newText\<rparr>) (sentAt message)\<rparr>)
    \<and> (\<forall>other. other \<noteq> messageId \<longrightarrow>
      messages (snd (edit hmac messageId newText editorId now nowMs svc)) other = messages svc other)
    \<and> channelMessages (snd (edit hmac messageId newText editorId now nowMs svc)) = channelMessages svc
    \<and> threadMessages (snd (edit hmac messageId newText editorId now nowMs svc)) = threadMessages svc"
  using assms
  by (auto simp: edit_def Let_def split: option.splits if_splits)


text \<open>
  C3, as far as the code goes. In a pipeline that holds a channel service, a \<open>send\<close> to a
  channel by a sender who has no write access to it by that service's \<open>checkAccess\<close> throws
  the permission-denied error and leaves the pipeline as it was: no message stored, no index
  entry, nothing handed to the relay. A pipeline built without a channel service makes no
  check: its \<open>send\<close> returns the message and has stored it.
\<close>

theorem send_denied_without_write_access:
  "(send_targetType input = T_channel \<and> channelService svc = Some cs
      \<and> \<not> checkAccess cs (send_targetId input) sender WRITE
     \<longrightarrow> send hmac input sender uuid now nowMs svc =
           (Inl (PermissionDenied ''Permission denied: cannot send to this channel''), svc))
   \<and> (channelService svc = None
     \<longrightarrow> (\<exists>message. fst (send hmac input sender uuid now nowMs svc) = Inr message
            \<and> senderId message = sender
            \<and> messages (snd (send hmac input sender uuid now nowMs svc)) (message_id message)
                 = Some message))"
  by (simp add: send_def Let_def split: option.splits)

lemma ops_service_with_rule_channel:
  "map_option (\<lambda>c. (accessRules c, defaultAccess c)) (channels ops_service_with_rule ''ch-3'')
     = Some ([\<lparr>principal = ''Worker1'', principalType = P_agent, level = WRITE,
               rule_expiresAt = None\<rparr>], None)"
  by (simp add: ops_service_with_rule_def ops_service_def channel_service_defs)

lemma ops_service_with_rule_access:
  "checkAccess ops_service_with_rule ''ch-3'' ''Worker1'' WRITE"
  "\<not> checkAccess ops_service_with_rule ''ch-3'' ''Worker2'' WRITE"
  using ops_service_with_rule_channel
  by (auto simp: checkAccess_def matchRule_def accessLevelSatisfies_def)

lemma unwired_send:
  "send example_hmac example_input ''Worker2'' ''7'' ''2026-01-01T00:00:01.000Z'' 1767225601000
       unwired_pipeline
     = (Inr unchecked_message,
        unwired_pipeline
          \<lparr>messages := [''msg-7'' \<mapsto> unchecked_message],
           channelMessages := [''ch-3'' \<mapsto> [''msg-7'']],
           ms_relayClient := Some [BroadcastToChannel ''ch-3'' unchecked_message 1767225601000]\<rparr>)"
  by (simp add: send_def unwired_pipeline_def example_pipeline_def example_input_def Let_def
      unchecked_message_def example_message_def signMessage_def example_hmac_def
      example_payload_def signing_payload_def index_push_def broadcastMessage_def relay_call_def)

theorem send_denied_without_write_access_witness:
  "send_targetType example_input = T_channel
   \<and> channelService example_pipeline = Some ops_service_with_rule
   \<and> \<not> checkAccess ops_service_with_rule (send_targetId example_input) ''Worker2'' WRITE
   \<and> send example_hmac example_input ''Worker2'' ''7'' ''2026-01-01T00:00:01.000Z'' 1767225601000
         example_pipeline
       = (Inl (PermissionDenied ''Permission denied: cannot send to this channel''),
          example_pipeline)
   \<and> channelService unwired_pipeline = None
   \<and> (\<exists>message.
         fst (send example_hmac example_input ''Worker2'' ''7'' ''2026-01-01T00:00:01.000Z''
                1767225601000 unwired_pipeline) = Inr message
         \<and> senderId message = ''Worker2''
         \<and> messages (snd (send example_hmac example_input ''Worker2'' ''7''
                ''2026-01-01T00:00:01.000Z'' 1767225601000 unwired_pipeline)) (message_id message)
              = Some message)"
proof -
  have h: "send_targetType example_input = T_channel"
    "channelService example_pipeline = Some ops_service_with_rule"
    "\<not> checkAccess ops_service_with_rule (send_targetId example_input) ''Worker2'' WRITE"
    by (simp_all add: example_input_def example_pipeline_def ops_service_with_rule_access)
  have n: "channelService unwired_pipeline = None"
    by (simp add: unwired_pipeline_def)
  have denied: "send example_hmac example_input ''Worker2'' ''7'' ''2026-01-01T00:00:01.000Z''
      1767225601000 example_pipeline
    = (Inl (PermissionDenied ''Permission denied: cannot send to this channel''), example_pipeline)"
    using send_denied_without_write_access [of example_input example_pipeline
        ops_service_with_rule "''Worker2''" example_hmac "''7''" "''2026-01-01T00:00:01.000Z''"
        1767225601000] h
    by blast
  have accepted: "\<exists>message.
         fst (send example_hmac example_input ''Worker2'' ''7'' ''2026-01-01T00:00:01.000Z''
                1767225601000 unwired_pipeline) = Inr message
         \<and> senderId message = ''Worker2''
         \<and> messages (snd (send example_hmac example_input ''Worker2'' ''7''
                ''2026-01-01T00:00:01.000Z'' 1767225601000 unwired_pipeline)) (message_id message)
              = Some message"
    using send_denied_without_write_access [of example_input unwired_pipeline _ "''Worker2''"
        example_hmac "''7''" "''2026-01-01T00:00:01.000Z''" 1767225601000] n
    by blast
  from h n denied accepted show ?thesis
    by blast
qed

text \<open>C3 as the specification states it does not hold of the code. The channel service
  refuses \<open>Worker2\<close> write access to the channel \<open>ch-3\<close>; the pipeline was built without a
  channel service; its \<open>send\<close> by \<open>Worker2\<close> to \<open>ch-3\<close> does not fail: it returns the message,
  which is then stored under its id, indexed under the channel and handed to the relay.\<close>

theorem send_unwired_counterexample:
  "send_targetType example_input = T_channel
   \<and> send_targetId example_input = ''ch-3''
   \<and> \<not> checkAccess ops_service_with_rule ''ch-3'' ''Worker2'' WRITE
   \<and> send example_hmac example_input ''Worker2'' ''7'' ''2026-01-01T00:00:01.000Z'' 1767225601000
         unwired_pipeline
       = (Inr unchecked_message,
          unwired_pipeline
            \<lparr>messages := [''msg-7'' \<mapsto> unchecked_message],
             channelMessages := [''ch-3'' \<mapsto> [''msg-7'']],
             ms_relayClient :=
               Some [BroadcastToChannel ''ch-3'' unchecked_message 1767225601000]\<rparr>)"
  using ops_service_with_rule_access(2) unwired_send
  by (simp add: example_input_def)

text \<open>
  C6. \<open>markDelivered\<close> changes nothing but the delivery status of the message named, and that
  only from \<open>sent\<close> to \<open>delivered\<close>: every message of the table is afterwards what it was,
  but for the message named when its status was \<open>sent\<close>; and when that status was
  \<open>pending\<close>, \<open>delivered\<close>, \<open>read\<close> or \<open>failed\<close>, or no such message exists, the service is
  unchanged.
\<close>

theorem markDelivered_only_from_sent:
  "(\<forall>k m. messages svc k = Some m \<longrightarrow>
      messages (markDelivered messageId recipientId svc) k =
        Some (if k = messageId \<and> deliveryStatus m = SENT then m\<lparr>deliveryStatus := DELIVERED\<rparr>
              else m))
   \<and> ((case messages svc messageId of
          None \<Rightarrow> True
        | Some m \<Rightarrow> deliveryStatus m \<in> {PENDING, DELIVERED, MSG_READ, FAILED})
       \<longrightarrow> markDelivered messageId recipientId svc = svc)"
  by (auto simp: markDelivered_def split: option.splits)

lemma example_sent_eq:
  "fst example_sent = Inr example_message"
  "messages (snd example_sent) = [''msg-7'' \<mapsto> example_message]"
  "signingKey (snd example_sent) = ''key''"
  using ops_service_with_rule_access(1)
  by (simp_all add: example_sent_def send_def example_input_def example_pipeline_def Let_def
      signMessage_def example_hmac_def example_payload_def example_message_def)

theorem markDelivered_only_from_sent_witness:
  "messages (snd example_sent) ''msg-7'' = Some example_message
   \<and> deliveryStatus example_message = SENT
   \<and> messages (markDelivered ''msg-7'' ''Worker2'' (snd example_sent)) ''msg-7''
       = Some (example_message\<lparr>deliveryStatus := DELIVERED\<rparr>)
   \<and> markDelivered ''msg-7'' ''Worker2'' (markDelivered ''msg-7'' ''Worker2'' (snd example_sent))
       = markDelivered ''msg-7'' ''Worker2'' (snd example_sent)"
proof -
  let ?svc1 = "markDelivered ''msg-7'' ''Worker2'' (snd example_sent)"
  have m: "messages (snd example_sent) ''msg-7'' = Some example_message"
    by (simp add: example_sent_eq)
  have s: "deliveryStatus example_message = SENT"
    by (simp add: example_message_def)
  have m1: "messages ?svc1 ''msg-7'' = Some (example_message\<lparr>deliveryStatus := DELIVERED\<rparr>)"
    using markDelivered_only_from_sent [of "snd example_sent" "''msg-7''" "''Worker2''"] m s
    by simp
  have "?svc1 = markDelivered ''msg-7'' ''Worker2'' ?svc1"
    using markDelivered_only_from_sent [of ?svc1 "''msg-7''" "''Worker2''"] m1
    by simp
  with m s m1 show ?thesis
    by simp
qed



lemma example_message_verifies:
  "verifySignature example_hmac (snd example_sent) example_message"
  using send_verifies [of example_hmac example_input "''Worker1''" "''7''"
      "''2026-01-01T00:00:01.000Z''" 1767225601000 example_pipeline example_message]
    example_sent_eq(1)
  by (simp add: example_sent_def)


text \<open>
  C10. A successful \<open>edit(messageId, newText, editorId)\<close> replaces the stored message by
  one that differs from it in \<open>content.text\<close> (now \<open>newText\<close>), \<open>editedAt\<close> (now the time of
  the edit) and \<open>signature\<close> only: \<open>content.mentions\<close> (not extracted again), \<open>content.data\<close>,
  \<open>content.attachments\<close>, \<open>sentAt\<close>, \<open>deliveryStatus\<close>, \<open>threadId\<close>, \<open>senderId\<close> and every
  other field are those of the message before. Every other message and both indexes are
  untouched.
\<close>

theorem edit_frame:
  assumes "fst (edit hmac messageId newText editorId now nowMs svc) = Inr True"
  shows "\<exists>m m'. messages svc messageId = Some m
           \<and> messages (snd (edit hmac messageId newText editorId now nowMs svc)) messageId = Some m'
           \<and> m' = m\<lparr>content := (content m)\<lparr>content_text := newText\<rparr>,
                     editedAt := Some now, signature := signature m'\<rparr>
           \<and> mentions (content m') = mentions (content m)
           \<and> data (content m') = data (content m)
           \<and> attachments (content m') = attachments (content m)
           \<and> sentAt m' = sentAt m
           \<and> deliveryStatus m' = deliveryStatus m
           \<and> threadId m' = threadId m
           \<and> senderId m' = senderId m
           \<and> (\<forall>other. other \<noteq> messageId \<longrightarrow>
                 messages (snd (edit hmac messageId newText editorId now nowMs svc)) other
                   = messages svc other)
           \<and> channelMessages (snd (edit hmac messageId newText editorId now nowMs svc))
               = channelMessages svc
           \<and> threadMessages (snd (edit hmac messageId newText editorId now nowMs svc))
               = threadMessages svc"
proof -
  from assms obtain m where m: "messages svc messageId = Some m"
    and m': "messages (snd (edit hmac messageId newText editorId now nowMs svc)) messageId =
      Some (m\<lparr>content := (content m)\<lparr>content_text := newText\<rparr>,
              editedAt := Some now,
              signature := signMessage hmac svc (message_id m) (senderId m)
                 ((content m)\<lparr>content_text := newText\<rparr>) (sentAt m)\<rparr>)"
    and others: "\<forall>other. other \<noteq> messageId \<longrightarrow>
      messages (snd (edit hmac messageId newText editorId now nowMs svc)) other = messages svc other"
    and idx: "channelMessages (snd (edit hmac messageId newText editorId now nowMs svc)) = channelMessages svc"
      "threadMessages (snd (edit hmac messageId newText editorId now nowMs svc)) = threadMessages svc"
    using edit_success by blast
  show ?thesis
    using m m' others idx by simp
qed

theorem edit_frame_witness:
  "fst (edit example_hmac ''msg-7'' ''bye'' ''Worker1'' ''2026-01-01T00:00:02.000Z''
          1767225602000 (snd example_sent)) = Inr True
   \<and> messages (snd (edit example_hmac ''msg-7'' ''bye'' ''Worker1'' ''2026-01-01T00:00:02.000Z''
          1767225602000 (snd example_sent))) ''msg-7''
       = Some (example_message
           \<lparr>content := (content example_message)\<lparr>content_text := ''bye''\<rparr>,
            editedAt := Some ''2026-01-01T00:00:02.000Z'', signature := ''key-1''\<rparr>)
   \<and> mentions (content example_message)
       = [\<lparr>mention_type = M_agent, mention_targetId = None, startIndex = 3, mention_length = 4\<rparr>]
   \<and> extractMentions ''bye'' = []"
proof -
  let ?e = "edit example_hmac ''msg-7'' ''bye'' ''Worker1'' ''2026-01-01T00:00:02.000Z''
          1767225602000 (snd example_sent)"
  have ok: "fst ?e = Inr True"
    by (simp add: edit_def example_sent_eq example_message_def Let_def)
  have sig: "map_option signature (messages (snd ?e) ''msg-7'') = Some ''key-1''"
    by (simp add: edit_def example_sent_eq example_message_def Let_def signMessage_def
        example_hmac_def example_payload_def signing_payload_def content_json_def)
  have w: "isWordChar CHR ''b''" "isWordChar CHR ''o''" "\<not> isWordChar CHR '' ''"
    "isWordChar CHR ''h''" "isWordChar CHR ''i''" "isWordChar CHR ''y''" "isWordChar CHR ''e''"
    by (simp_all add: isWordChar_def)
  have ex: "extractMentions ''hi @bob''
      = [\<lparr>mention_type = M_agent, mention_targetId = None, startIndex = 3, mention_length = 4\<rparr>]"
    "extractMentions ''bye'' = []"
    by (simp_all add: extractMentions_def w)
  show ?thesis
    using edit_frame [OF ok] example_sent_eq(2) sig ex ok
    by (auto simp: example_message_def)
qed

subsection \<open>Token issuance\<close>

lemma nearest_double_whole:
  assumes "\<bar>n\<bar> \<le> 2 ^ 53"
  shows "nearest_double (of_int n) = of_int n"
proof -
  have "\<bar>(of_int n :: rat)\<bar> \<le> 2 ^ 53"
    using assms by (metis of_int_abs of_int_le_iff of_int_numeral of_int_power)
  then show ?thesis
    by (simp add: nearest_double_def)
qed

lemma js_add_whole:
  assumes "\<bar>a + b\<bar> \<le> 2 ^ 53"
  shows "js_add (of_int a) (of_int b) = of_int a + of_int b"
  using nearest_double_whole [OF assms] by (simp add: js_add_def)

lemma js_div_whole_seconds:
  assumes "\<bar>seconds\<bar> \<le> 2 ^ 53"
  shows "js_div (of_int (1000 * seconds)) 1000 = of_int seconds"
  using nearest_double_whole [OF assms] by (simp add: js_div_def)

lemma new_AuthService_tokenExpiry:
  "tokenExpiry (new_AuthService secret_arg tokenExpiry_arg env_JWT_SECRET uuid) =
     (case tokenExpiry_arg of
        None \<Rightarrow> 24 * 60 * 60 * 1000
      | Some lifetime \<Rightarrow> if lifetime = 0 then 24 * 60 * 60 * 1000 else lifetime)"
  by (simp add: new_AuthService_def or_number_def DEFAULT_TOKEN_EXPIRY_def split: option.splits)

text \<open>
  C5, as far as the code goes. Let the lifetime be a whole number of seconds, more than none
  and within the 30 days, the clock a whole number of milliseconds in the range of \<open>Date\<close>,
  and let \<open>jwt.sign\<close> sign whenever \<open>expiresIn\<close> is a whole number of seconds. Then
  \<open>generateToken\<close> issues a token: the one \<open>jwt.sign\<close> makes, with \<open>expiresIn\<close> the lifetime in
  seconds, of the payload that carries the agent's id, name and permissions,
  \<open>issuedAt = now\<close> and \<open>expiresAt = issuedAt + lifetime\<close>.
\<close>

theorem generateToken_within_cap:
  assumes "\<forall>payload key whole. \<exists>token. sign payload key (of_int whole) = Inr token"
    and "tokenExpiry svc = of_int (1000 * seconds)"
    and "0 < seconds" and "seconds \<le> TOKEN_MAX_LIFETIME_SECONDS"
    and "now = of_int ms" and "0 \<le> ms" and "ms \<le> 8640000000000000"
  shows "\<exists>token. generateToken sign svc agent now = Inr token
           \<and> sign \<lparr>token_agentId = agent_id agent, token_agentName = agent_name agent,
                    token_permissions = agent_permissions agent, issuedAt = now,
                    expiresAt = now + tokenExpiry svc\<rparr> (secret svc) (of_int seconds)
               = Inr token"
proof -
  have s: "\<bar>seconds\<bar> \<le> 2 ^ 53"
    using assms(3,4) by (simp add: TOKEN_MAX_LIFETIME_SECONDS_def)
  have "\<bar>ms + 1000 * seconds\<bar> \<le> 2 ^ 53"
    using assms(3,4,6,7) by (simp add: TOKEN_MAX_LIFETIME_SECONDS_def)
  then have sum: "js_add now (tokenExpiry svc) = now + tokenExpiry svc"
    unfolding assms(2,5) by (rule js_add_whole)
  have quot: "js_div (tokenExpiry svc) 1000 = of_int seconds"
    unfolding assms(2) using s by (rule js_div_whole_seconds)
  from assms(1) obtain token where
    "sign \<lparr>token_agentId = agent_id agent, token_agentName = agent_name agent,
           token_permissions = agent_permissions agent, issuedAt = now,
           expiresAt = now + tokenExpiry svc\<rparr> (secret svc) (of_int seconds) = Inr token"
    by blast
  then show ?thesis
    by (simp add: generateToken_def sum quot)
qed

lemma example_jwt_sign_whole:
  "\<forall>payload key whole. \<exists>token. example_jwt_sign payload key (of_int whole) = Inr token"
  by (simp add: example_jwt_sign_def)

theorem generateToken_within_cap_witness:
  "tokenExpiry default_service = of_int (1000 * 86400)
   \<and> (0::int) < 86400 \<and> 86400 \<le> TOKEN_MAX_LIFETIME_SECONDS
   \<and> generateToken example_jwt_sign default_service example_agent 1767225600000
       = Inr ''jwt:agent-1''
   \<and> example_jwt_sign
        \<lparr>token_agentId = ''agent-1'', token_agentName = ''Worker1'',
         token_permissions = createDefaultPermissions, issuedAt = 1767225600000,
         expiresAt = 1767225600000 + 86400000\<rparr> ''s3cret'' 86400
       = Inr ''jwt:agent-1''"
proof -
  have t: "tokenExpiry default_service = of_int (1000 * 86400)"
    by (simp add: default_service_def new_AuthService_tokenExpiry)
  have c: "(0::int) < 86400" "86400 \<le> TOKEN_MAX_LIFETIME_SECONDS"
    by (simp_all add: TOKEN_MAX_LIFETIME_SECONDS_def)
  have n: "(1767225600000::rat) = of_int 1767225600000" "(0::int) \<le> 1767225600000"
    "(1767225600000::int) \<le> 8640000000000000"
    by simp_all
  from generateToken_within_cap [OF example_jwt_sign_whole t c n, of example_agent]
  obtain token where
    g: "generateToken example_jwt_sign default_service example_agent 1767225600000 = Inr token"
    and s: "example_jwt_sign
        \<lparr>token_agentId = agent_id example_agent, token_agentName = agent_name example_agent,
         token_permissions = agent_permissions example_agent, issuedAt = 1767225600000,
         expiresAt = 1767225600000 + tokenExpiry default_service\<rparr>
        (secret default_service) (of_int 86400) = Inr token"
    by blast
  from s have "token = ''jwt:agent-1''"
    by (simp add: example_jwt_sign_def example_agent_def)
  with g have g': "generateToken example_jwt_sign default_service example_agent 1767225600000
      = Inr ''jwt:agent-1''"
    by simp
  have e: "example_jwt_sign
        \<lparr>token_agentId = ''agent-1'', token_agentName = ''Worker1'',
         token_permissions = createDefaultPermissions, issuedAt = 1767225600000,
         expiresAt = 1767225600000 + 86400000\<rparr> ''s3cret'' 86400
       = Inr ''jwt:agent-1''"
    using example_jwt_sign_whole by (simp add: example_jwt_sign_def)
  from t c g' e show ?thesis
    by simp
qed

text \<open>C5 as the specification states it does not hold of the code: with a lifetime of 31
  days, over the 30 days of \<open>TOKEN_MAX_LIFETIME_SECONDS\<close>, \<open>generateToken\<close> does not fail but
  issues a token.\<close>

theorem generateToken_over_cap_counterexample:
  "tokenExpiry days31_service = 31 * 24 * 60 * 60 * 1000
   \<and> tokenExpiry days31_service > 1000 * of_int TOKEN_MAX_LIFETIME_SECONDS
   \<and> generateToken example_jwt_sign days31_service example_agent 1767225600000
       = Inr ''jwt:agent-1''"
proof -
  have t: "tokenExpiry days31_service = of_int (1000 * 2678400)"
    by (simp add: days31_service_def new_AuthService_tokenExpiry)
  have "js_add 1767225600000 (tokenExpiry days31_service) = of_int 1767225600000 + of_int (1000 * 2678400)"
    unfolding t using js_add_whole [of 1767225600000 "1000 * 2678400"] by simp
  moreover have "js_div (tokenExpiry days31_service) 1000 = of_int 2678400"
    unfolding t by (rule js_div_whole_seconds) simp
  ultimately show ?thesis
    using t
    by (simp add: generateToken_def example_jwt_sign_def example_agent_def
        TOKEN_MAX_LIFETIME_SECONDS_def)
qed

text \<open>A lifetime that is not a whole number of seconds makes \<open>expiresIn\<close> a fraction, which
  the library refuses: with 1500 milliseconds \<open>generateToken\<close> throws.\<close>

lemma generateToken_1500_ms:
  "generateToken example_jwt_sign ms1500_service example_agent 1767225600000
     = Inl ''\"expiresIn\" should be a number of seconds or string representing a timespan''"
  by code_simp

subsection \<open>Heartbeat timeouts\<close>

lemmas presence_defs =
  silent_agent_def new_PresenceService_def connect_def checkHeartbeats_def checkHeartbeat_of_def
  setStatus_def disconnect_def get_presence_def delete_presence_def broadcastPresenceChange_def
  or_string_def IDLE_TIMEOUT_def OFFLINE_TIMEOUT_def Let_def

text \<open>What one run of the checker does to one agent: the entry of an agent whose stored
  \<open>lastHeartbeat\<close> is more than 120 s old and whose status is not offline is removed; else, if
  it is more than 60 s old and the status is online, the agent becomes idle and its
  \<open>lastHeartbeat\<close> becomes the time of the run; else the entry stays. Each agent is treated on
  its own.\<close>

lemma map_of_set_presence: "map_of (set_presence k v ps) = (map_of ps)(k \<mapsto> v)"
  by (induction ps) (auto simp: fun_eq_iff)

lemma map_of_delete_presence:
  "map_of (delete_presence k ps) k' = (if k' = k then None else map_of ps k')"
  by (induction ps) (auto simp: delete_presence_def)

lemma get_presence_broadcast [simp]:
  "get_presence (broadcastPresenceChange a st extra now svc) b = get_presence svc b"
  by (simp add: get_presence_def broadcastPresenceChange_def)

lemma get_presence_disconnect:
  "get_presence (disconnect a reason now svc) b = (if b = a then None else get_presence svc b)"
  by (cases "get_presence svc a")
    (auto simp: disconnect_def Let_def get_presence_def map_of_delete_presence
      map_of_set_presence broadcastPresenceChange_def)

lemma get_presence_setStatus:
  "get_presence (snd (setStatus a st message now svc)) b =
     (if b = a then
        map_option (\<lambda>p. p\<lparr>status := st, statusMessage := message, lastHeartbeat := now\<rparr>)
          (get_presence svc a)
      else get_presence svc b)"
  by (cases "get_presence svc a")
    (auto simp: setStatus_def Let_def get_presence_def map_of_set_presence
      broadcastPresenceChange_def)

lemma get_presence_checkHeartbeat_of:
  "get_presence (checkHeartbeat_of a now svc) b =
     (if b = a then checked now (get_presence svc a) else get_presence svc b)"
  by (cases "get_presence svc a")
    (auto simp: checkHeartbeat_of_def Let_def checked_def get_presence_disconnect
      get_presence_setStatus IDLE_TIMEOUT_def OFFLINE_TIMEOUT_def)

lemma get_presence_checkHeartbeats_loop:
  "distinct agents \<Longrightarrow>
     get_presence (checkHeartbeats_loop agents now svc) b =
       (if b \<in> set agents then checked now (get_presence svc b) else get_presence svc b)"
  by (induction agents arbitrary: svc) (auto simp: get_presence_checkHeartbeat_of)

lemma checkHeartbeats_entry:
  assumes "distinct (map fst (presences svc))"
  shows "get_presence (checkHeartbeats now svc) agent = checked now (get_presence svc agent)"
proof (cases "agent \<in> set (map fst (presences svc))")
  case True
  with assms show ?thesis
    by (simp add: checkHeartbeats_def get_presence_checkHeartbeats_loop)
next
  case False
  then have "get_presence svc agent = None"
    by (simp add: get_presence_def map_of_eq_None_iff)
  with assms False show ?thesis
    by (simp add: checkHeartbeats_def get_presence_checkHeartbeats_loop checked_def)
qed

text \<open>
  C8 on the code. An agent connects at time 0 and sends no heartbeat; the checker runs every
  30 seconds. The run at 90 s makes it idle, and through \<open>setStatus\<close> stamps \<open>lastHeartbeat\<close>
  with the time of that run. So at the runs at 150 s, 180 s and 210 s, more than 120 s after
  the connect and with a status that is not offline, the agent is still in the presence set
  and idle; only the run at 240 s disconnects it.
\<close>

theorem silent_agent_outlives_offline_timeout:
  "map_option (\<lambda>p. (status p, lastHeartbeat p))
       (get_presence (run_checker [30000, 60000] silent_agent) ''agent-1'')
     = Some (ONLINE, 0)
   \<and> map_option (\<lambda>p. (status p, lastHeartbeat p))
       (get_presence (run_checker [30000, 60000, 90000] silent_agent) ''agent-1'')
     = Some (IDLE, 90000)
   \<and> map_option (\<lambda>p. (status p, lastHeartbeat p))
       (get_presence (run_checker [30000, 60000, 90000, 120000, 150000] silent_agent) ''agent-1'')
     = Some (IDLE, 90000)
   \<and> map_option (\<lambda>p. (status p, lastHeartbeat p))
       (get_presence
          (run_checker [30000, 60000, 90000, 120000, 150000, 180000, 210000] silent_agent)
          ''agent-1'')
     = Some (IDLE, 90000)
   \<and> get_presence
        (run_checker [30000, 60000, 90000, 120000, 150000, 180000, 210000, 240000] silent_agent)
        ''agent-1''
     = None"
  by (simp add: presence_defs)

subsection \<open>Acknowledgements\<close>

lemma sendToAgent_fields [simp]:
  "pendingAcks (sendToAgent a m rc) = pendingAcks rc"
  "timers (sendToAgent a m rc) = timers rc"
  "next_handle (sendToAgent a m rc) = next_handle rc"
  "settle_calls (sendToAgent a m rc) = settle_calls rc"
  by (simp_all add: sendToAgent_def)

lemma calls_on_sendToAgent [simp]: "calls_on h (sendToAgent a m rc) = calls_on h rc"
  by (simp add: calls_on_def)

lemma acks_inv_new: "acks_inv new_RelayClient"
  by (simp add: acks_inv_def new_RelayClient_def)

lemma acks_inv_pending:
  assumes "acks_inv rc" and "pendingAcks rc c = Some p"
  shows "p = \<lparr>ack_promise = ack_timeout p, ack_timeout = ack_timeout p\<rparr>"
    and "\<exists>t. timers rc (ack_timeout p) = Some t \<and> timer_correlationId t = c
          \<and> timer_promise t = ack_timeout p"
    and "ack_timeout p < next_handle rc"
proof -
  from assms obtain t where t: "timers rc (ack_timeout p) = Some t" "timer_correlationId t = c"
    "timer_promise t = ack_promise p"
    unfolding acks_inv_def by blast
  from assms(1) t(1) have h: "ack_timeout p < next_handle rc" "timer_promise t = ack_timeout p"
    "pendingAcks rc (timer_correlationId t)
       = Some \<lparr>ack_promise = ack_timeout p, ack_timeout = ack_timeout p\<rparr>"
    unfolding acks_inv_def by blast+
  from h(3) t(2) assms(2) show "p = \<lparr>ack_promise = ack_timeout p, ack_timeout = ack_timeout p\<rparr>"
    by simp
  from t h show "\<exists>t. timers rc (ack_timeout p) = Some t \<and> timer_correlationId t = c
          \<and> timer_promise t = ack_timeout p"
    by simp
  from h show "ack_timeout p < next_handle rc"
    by simp
qed

lemma acks_inv_timer:
  assumes "acks_inv rc" and "timers rc h = Some t"
  shows "h < next_handle rc" and "timer_promise t = h"
    and "pendingAcks rc (timer_correlationId t) = Some \<lparr>ack_promise = h, ack_timeout = h\<rparr>"
  using assms unfolding acks_inv_def by blast+

lemma acks_inv_calls:
  assumes "acks_inv rc" and "x \<in> set (settle_calls rc)"
  shows "fst x < next_handle rc"
  using assms unfolding acks_inv_def by blast

lemma acks_inv_handleAck:
  assumes "acks_inv rc"
  shows "acks_inv (handleAck correlation d rc)"
proof (cases "\<exists>c p. correlation = Some c \<and> pendingAcks rc c = Some p")
  case False
  then have "handleAck correlation d rc = rc"
    by (auto simp: handleAck_def split: option.splits)
  with assms show ?thesis
    by simp
next
  case True
  then obtain c p where c: "correlation = Some c" "pendingAcks rc c = Some p"
    by blast
  let ?h = "ack_timeout p"
  from acks_inv_pending [OF assms c(2)] obtain t where
    p: "p = \<lparr>ack_promise = ?h, ack_timeout = ?h\<rparr>" and
    t: "timers rc ?h = Some t" "timer_correlationId t = c" "timer_promise t = ?h" and
    lt: "?h < next_handle rc"
    by blast
  have eq: "handleAck correlation d rc =
      rc\<lparr>timers := (timers rc)(?h := None),
          settle_calls := settle_calls rc @ [(ack_promise p, Resolve d)],
          pendingAcks := (pendingAcks rc)(c := None)\<rparr>"
    using c by (simp add: handleAck_def)
  have pr: "ack_promise p = ?h"
    using p by (metis PendingAck.select_convs(1))
  show ?thesis
    unfolding eq acks_inv_def
  proof (intro conjI allI impI ballI)
    fix c' p'
    assume "pendingAcks (rc\<lparr>timers := (timers rc)(?h := None),
          settle_calls := settle_calls rc @ [(ack_promise p, Resolve d)],
          pendingAcks := (pendingAcks rc)(c := None)\<rparr>) c' = Some p'"
    then have c': "c' \<noteq> c" "pendingAcks rc c' = Some p'"
      by (auto split: if_splits)
    from acks_inv_pending [OF assms c'(2)] obtain t' where
      t': "timers rc (ack_timeout p') = Some t'" "timer_correlationId t' = c'"
        "timer_promise t' = ack_timeout p'"
        "p' = \<lparr>ack_promise = ack_timeout p', ack_timeout = ack_timeout p'\<rparr>"
      by blast
    have "ack_timeout p' \<noteq> ?h"
      using t t' c'(1) by auto
    moreover have "ack_promise p' = ack_timeout p'"
      using t'(4) by (metis PendingAck.select_convs(1))
    ultimately show "\<exists>t. timers (rc\<lparr>timers := (timers rc)(?h := None),
          settle_calls := settle_calls rc @ [(ack_promise p, Resolve d)],
          pendingAcks := (pendingAcks rc)(c := None)\<rparr>) (ack_timeout p') = Some t
        \<and> timer_correlationId t = c' \<and> timer_promise t = ack_promise p'"
      using t' by simp
  next
    fix h' t'
    assume "timers (rc\<lparr>timers := (timers rc)(?h := None),
          settle_calls := settle_calls rc @ [(ack_promise p, Resolve d)],
          pendingAcks := (pendingAcks rc)(c := None)\<rparr>) h' = Some t'"
    then have h': "h' \<noteq> ?h" "timers rc h' = Some t'"
      by (auto split: if_splits)
    note i = acks_inv_timer [OF assms h'(2)]
    have "timer_correlationId t' \<noteq> c"
      using i(3) c(2) p h'(1) by (metis PendingAck.select_convs(2) option.inject)
    with i show "h' < next_handle (rc\<lparr>timers := (timers rc)(?h := None),
          settle_calls := settle_calls rc @ [(ack_promise p, Resolve d)],
          pendingAcks := (pendingAcks rc)(c := None)\<rparr>)"
      and "timer_promise t' = h'"
      and "pendingAcks (rc\<lparr>timers := (timers rc)(?h := None),
          settle_calls := settle_calls rc @ [(ack_promise p, Resolve d)],
          pendingAcks := (pendingAcks rc)(c := None)\<rparr>) (timer_correlationId t')
        = Some \<lparr>ack_promise = h', ack_timeout = h'\<rparr>"
      by simp_all
  next
    fix x
    assume "x \<in> set (settle_calls (rc\<lparr>timers := (timers rc)(?h := None),
          settle_calls := settle_calls rc @ [(ack_promise p, Resolve d)],
          pendingAcks := (pendingAcks rc)(c := None)\<rparr>))"
    then have "x \<in> set (settle_calls rc) \<or> x = (?h, Resolve d)"
      using pr by auto
    then show "fst x < next_handle (rc\<lparr>timers := (timers rc)(?h := None),
          settle_calls := settle_calls rc @ [(ack_promise p, Resolve d)],
          pendingAcks := (pendingAcks rc)(c := None)\<rparr>)"
      using acks_inv_calls [OF assms, of x] lt by auto
  qed
qed

lemma acks_inv_timer_fires:
  assumes "acks_inv rc"
  shows "acks_inv (timer_fires h rc)"
proof (cases "timers rc h")
  case None
  then have "timer_fires h rc = rc"
    by (simp add: timer_fires_def)
  with assms show ?thesis
    by simp
next
  case (Some t)
  note i = acks_inv_timer [OF assms Some]
  let ?c = "timer_correlationId t"
  let ?rc' = "rc\<lparr>timers := (timers rc)(h := None),
              pendingAcks := (pendingAcks rc)(?c := None),
              settle_calls := settle_calls rc @
                [(timer_promise t, Reject (''Timeout waiting for ack from '' @ timer_agentId t))]\<rparr>"
  have eq: "timer_fires h rc = ?rc'"
    using Some by (simp add: timer_fires_def)
  show ?thesis
    unfolding eq acks_inv_def
  proof (intro conjI allI impI ballI)
    fix c' p'
    assume "pendingAcks ?rc' c' = Some p'"
    then have c': "c' \<noteq> ?c" "pendingAcks rc c' = Some p'"
      by (auto split: if_splits)
    from acks_inv_pending [OF assms c'(2)] obtain t' where
      t': "timers rc (ack_timeout p') = Some t'" "timer_correlationId t' = c'"
        "timer_promise t' = ack_timeout p'"
        "p' = \<lparr>ack_promise = ack_timeout p', ack_timeout = ack_timeout p'\<rparr>"
      by blast
    have "ack_timeout p' \<noteq> h"
      using Some t' c'(1) by auto
    moreover have "ack_promise p' = ack_timeout p'"
      using t'(4) by (metis PendingAck.select_convs(1))
    ultimately show "\<exists>t. timers ?rc' (ack_timeout p') = Some t
        \<and> timer_correlationId t = c' \<and> timer_promise t = ack_promise p'"
      using t' by simp
  next
    fix h' t'
    assume "timers ?rc' h' = Some t'"
    then have h': "h' \<noteq> h" "timers rc h' = Some t'"
      by (auto split: if_splits)
    note j = acks_inv_timer [OF assms h'(2)]
    have "timer_correlationId t' \<noteq> ?c"
      using i(3) j(3) h'(1) by (metis PendingAck.select_convs(2) option.inject)
    with j show "h' < next_handle ?rc'" and "timer_promise t' = h'"
      and "pendingAcks ?rc' (timer_correlationId t') = Some \<lparr>ack_promise = h', ack_timeout = h'\<rparr>"
      by simp_all
  next
    fix x
    assume "x \<in> set (settle_calls ?rc')"
    then have "x \<in> set (settle_calls rc) \<or> fst x = h"
      using i(2) by auto
    then show "fst x < next_handle ?rc'"
      using acks_inv_calls [OF assms, of x] i(1) by auto
  qed
qed

lemma acks_inv_sendWithAck:
  assumes "acks_inv rc" and "pendingAcks rc uuid = None"
  shows "acks_inv (snd (sendWithAck agent message timeoutMs uuid rc))"
proof -
  let ?h = "next_handle rc"
  let ?t = "\<lparr>timer_delay = (case timeoutMs of None \<Rightarrow> 5000 | Some t \<Rightarrow> t),
             timer_correlationId = uuid, timer_agentId = agent, timer_promise = ?h\<rparr>"
  let ?rc' = "snd (sendWithAck agent message timeoutMs uuid rc)"
  have f: "pendingAcks ?rc' = (pendingAcks rc)(uuid \<mapsto> \<lparr>ack_promise = ?h, ack_timeout = ?h\<rparr>)"
    "timers ?rc' = (timers rc)(?h \<mapsto> ?t)"
    "next_handle ?rc' = Suc ?h"
    "settle_calls ?rc' = settle_calls rc"
    by (simp_all add: sendWithAck_def Let_def)
  have old_timer: "timers rc ?h = None"
    using acks_inv_timer(1) [OF assms(1)] by (cases "timers rc ?h") auto
  show ?thesis
    unfolding acks_inv_def f
  proof (intro conjI allI impI ballI)
    fix c' p'
    assume a: "((pendingAcks rc)(uuid \<mapsto> \<lparr>ack_promise = ?h, ack_timeout = ?h\<rparr>)) c' = Some p'"
    show "\<exists>t. ((timers rc)(?h \<mapsto> ?t)) (ack_timeout p') = Some t
        \<and> timer_correlationId t = c' \<and> timer_promise t = ack_promise p'"
    proof (cases "c' = uuid")
      case True
      with a show ?thesis
        by auto
    next
      case False
      with a have c': "pendingAcks rc c' = Some p'"
        by simp
      from acks_inv_pending [OF assms(1) c'] obtain t' where
        t': "timers rc (ack_timeout p') = Some t'" "timer_correlationId t' = c'"
          "timer_promise t' = ack_timeout p'"
          "p' = \<lparr>ack_promise = ack_timeout p', ack_timeout = ack_timeout p'\<rparr>"
        by blast
      have "ack_timeout p' \<noteq> ?h"
        using t'(1) old_timer by auto
      moreover have "ack_promise p' = ack_timeout p'"
        using t'(4) by (metis PendingAck.select_convs(1))
      ultimately show ?thesis
        using t' by simp
    qed
  next
    fix h' t'
    assume a: "((timers rc)(?h \<mapsto> ?t)) h' = Some t'"
    show "h' < Suc ?h" and "timer_promise t' = h'"
      and "((pendingAcks rc)(uuid \<mapsto> \<lparr>ack_promise = ?h, ack_timeout = ?h\<rparr>)) (timer_correlationId t')
        = Some \<lparr>ack_promise = h', ack_timeout = h'\<rparr>"
    proof -
      have "h' < Suc ?h \<and> timer_promise t' = h'
        \<and> ((pendingAcks rc)(uuid \<mapsto> \<lparr>ack_promise = ?h, ack_timeout = ?h\<rparr>)) (timer_correlationId t')
          = Some \<lparr>ack_promise = h', ack_timeout = h'\<rparr>"
      proof (cases "h' = ?h")
        case True
        with a show ?thesis
          by auto
      next
        case False
        with a have h': "timers rc h' = Some t'"
          by simp
        note j = acks_inv_timer [OF assms(1) h']
        have "timer_correlationId t' \<noteq> uuid"
          using j(3) assms(2) by auto
        with j show ?thesis
          by simp
      qed
      then show "h' < Suc ?h" and "timer_promise t' = h'"
        and "((pendingAcks rc)(uuid \<mapsto> \<lparr>ack_promise = ?h, ack_timeout = ?h\<rparr>)) (timer_correlationId t')
          = Some \<lparr>ack_promise = h', ack_timeout = h'\<rparr>"
        by simp_all
    qed
  next
    fix x
    assume "x \<in> set (settle_calls rc)"
    then show "fst x < Suc ?h"
      using acks_inv_calls [OF assms(1), of x] by simp
  qed
qed

lemma calls_on_append [simp]:
  "calls_on h (rc\<lparr>settle_calls := settle_calls rc @ [(h', s)]\<rparr>)
     = (if h' = h then calls_on h rc @ [s] else calls_on h rc)"
  by (simp add: calls_on_def)

lemma handleAck_other:
  assumes "acks_inv rc" and "correlation \<noteq> Some c"
    and "timers rc h = None \<or> (\<exists>t. timers rc h = Some t \<and> timer_correlationId t = c)"
  shows "pendingAcks (handleAck correlation d rc) c = pendingAcks rc c"
    and "timers (handleAck correlation d rc) h = timers rc h"
    and "calls_on h (handleAck correlation d rc) = calls_on h rc"
    and "next_handle (handleAck correlation d rc) = next_handle rc"
proof -
  have "pendingAcks (handleAck correlation d rc) c = pendingAcks rc c
    \<and> timers (handleAck correlation d rc) h = timers rc h
    \<and> calls_on h (handleAck correlation d rc) = calls_on h rc
    \<and> next_handle (handleAck correlation d rc) = next_handle rc"
  proof (cases "\<exists>c' p. correlation = Some c' \<and> pendingAcks rc c' = Some p")
    case False
    then have "handleAck correlation d rc = rc"
      by (auto simp: handleAck_def split: option.splits)
    then show ?thesis
      by simp
  next
    case True
    then obtain c' p where c': "correlation = Some c'" "pendingAcks rc c' = Some p"
      by blast
    from acks_inv_pending [OF assms(1) c'(2)] obtain t where
      p: "p = \<lparr>ack_promise = ack_timeout p, ack_timeout = ack_timeout p\<rparr>" and
      t: "timers rc (ack_timeout p) = Some t" "timer_correlationId t = c'"
      by blast
    have pr: "ack_promise p = ack_timeout p"
      using p by (metis PendingAck.select_convs(1))
    have ne: "c' \<noteq> c"
      using assms(2) c'(1) by simp
    have nh: "ack_timeout p \<noteq> h"
      using assms(3) t ne by auto
    show ?thesis
      using c' ne nh pr by (simp add: handleAck_def calls_on_def)
  qed
  then show "pendingAcks (handleAck correlation d rc) c = pendingAcks rc c"
    and "timers (handleAck correlation d rc) h = timers rc h"
    and "calls_on h (handleAck correlation d rc) = calls_on h rc"
    and "next_handle (handleAck correlation d rc) = next_handle rc"
    by simp_all
qed

lemma timer_fires_other:
  assumes "acks_inv rc" and "h' \<noteq> h"
    and "pendingAcks rc c = None \<or> pendingAcks rc c = Some \<lparr>ack_promise = h, ack_timeout = h\<rparr>"
  shows "pendingAcks (timer_fires h' rc) c = pendingAcks rc c"
    and "timers (timer_fires h' rc) h = timers rc h"
    and "calls_on h (timer_fires h' rc) = calls_on h rc"
    and "next_handle (timer_fires h' rc) = next_handle rc"
proof -
  have "pendingAcks (timer_fires h' rc) c = pendingAcks rc c
    \<and> timers (timer_fires h' rc) h = timers rc h
    \<and> calls_on h (timer_fires h' rc) = calls_on h rc
    \<and> next_handle (timer_fires h' rc) = next_handle rc"
  proof (cases "timers rc h'")
    case None
    then show ?thesis
      by (simp add: timer_fires_def)
  next
    case (Some t')
    note j = acks_inv_timer [OF assms(1) Some]
    have "timer_correlationId t' \<noteq> c"
      using j(3) assms(2,3) by auto
    then show ?thesis
      using Some j(2) assms(2) by (simp add: timer_fires_def calls_on_def)
  qed
  then show "pendingAcks (timer_fires h' rc) c = pendingAcks rc c"
    and "timers (timer_fires h' rc) h = timers rc h"
    and "calls_on h (timer_fires h' rc) = calls_on h rc"
    and "next_handle (timer_fires h' rc) = next_handle rc"
    by simp_all
qed

lemma sendWithAck_other:
  assumes "uuid \<noteq> c" and "h < next_handle rc"
  shows "pendingAcks (snd (sendWithAck agent message timeoutMs uuid rc)) c = pendingAcks rc c"
    and "timers (snd (sendWithAck agent message timeoutMs uuid rc)) h = timers rc h"
    and "calls_on h (snd (sendWithAck agent message timeoutMs uuid rc)) = calls_on h rc"
    and "next_handle (snd (sendWithAck agent message timeoutMs uuid rc)) = Suc (next_handle rc)"
  using assms by (simp_all add: sendWithAck_def Let_def calls_on_def)

lemma relay_step_inv:
  assumes "acks_inv rc" and "fresh_ids c [ev] rc"
  shows "acks_inv (relay_step ev rc)"
  using assms
  by (cases ev) (simp_all add: acks_inv_handleAck acks_inv_timer_fires acks_inv_sendWithAck)

lemma relay_step_over:
  assumes "acks_inv rc" and "ack_over c h rc" and "fresh_ids c [ev] rc"
  shows "ack_over c h (relay_step ev rc) \<and> calls_on h (relay_step ev rc) = calls_on h rc"
proof (cases ev)
  case (AckFrame correlation d)
  show ?thesis
  proof (cases "correlation = Some c")
    case True
    with assms(2) have "handleAck correlation d rc = rc"
      by (simp add: handleAck_def ack_over_def)
    with assms(2) AckFrame show ?thesis
      by simp
  next
    case False
    from assms(2) have "timers rc h = None \<or> (\<exists>t. timers rc h = Some t \<and> timer_correlationId t = c)"
      by (simp add: ack_over_def)
    from handleAck_other [OF assms(1) False this] assms(2) AckFrame show ?thesis
      by (simp add: ack_over_def)
  qed
next
  case (TimerFires h')
  show ?thesis
  proof (cases "h' = h")
    case True
    with assms(2) have "timer_fires h' rc = rc"
      by (simp add: timer_fires_def ack_over_def)
    with assms(2) TimerFires show ?thesis
      by simp
  next
    case False
    from assms(2) have "pendingAcks rc c = None
        \<or> pendingAcks rc c = Some \<lparr>ack_promise = h, ack_timeout = h\<rparr>"
      by (simp add: ack_over_def)
    from timer_fires_other [OF assms(1) False this] assms(2) TimerFires show ?thesis
      by (simp add: ack_over_def)
  qed
next
  case (SendWithAck agent message timeoutMs uuid)
  with assms(3) have u: "uuid \<noteq> c"
    by simp
  from assms(2) have lt: "h < next_handle rc"
    by (simp add: ack_over_def)
  from sendWithAck_other [OF u lt] assms(2) SendWithAck show ?thesis
    by (simp add: ack_over_def)
qed

lemma relay_step_waiting:
  assumes "acks_inv rc" and "ack_waiting c h agent rc" and "fresh_ids c [ev] rc"
  shows "case first_settlement c h agent [ev] of
           None \<Rightarrow> ack_waiting c h agent (relay_step ev rc)
         | Some s \<Rightarrow> ack_over c h (relay_step ev rc) \<and> calls_on h (relay_step ev rc) = [s]"
proof -
  from assms(2) obtain t where w:
    "pendingAcks rc c = Some \<lparr>ack_promise = h, ack_timeout = h\<rparr>"
    "timers rc h = Some t" "timer_correlationId t = c" "timer_agentId t = agent"
    "timer_promise t = h" "calls_on h rc = []"
    by (auto simp: ack_waiting_def)
  from acks_inv_timer(1) [OF assms(1) w(2)] have lt: "h < next_handle rc" .
  show ?thesis
  proof (cases ev)
    case (AckFrame correlation d)
    show ?thesis
    proof (cases "correlation = Some c")
      case True
      with w lt AckFrame show ?thesis
        by (simp add: handleAck_def ack_over_def calls_on_def)
    next
      case False
      from w have "timers rc h = None \<or> (\<exists>t. timers rc h = Some t \<and> timer_correlationId t = c)"
        by simp
      from handleAck_other [OF assms(1) False this] w AckFrame False show ?thesis
        by (simp add: ack_waiting_def)
    qed
  next
    case (TimerFires h')
    show ?thesis
    proof (cases "h' = h")
      case True
      with w lt TimerFires show ?thesis
        by (simp add: timer_fires_def ack_over_def calls_on_def)
    next
      case False
      from w have "pendingAcks rc c = None
          \<or> pendingAcks rc c = Some \<lparr>ack_promise = h, ack_timeout = h\<rparr>"
        by simp
      from timer_fires_other [OF assms(1) False this] w TimerFires False show ?thesis
        by (simp add: ack_waiting_def)
    qed
  next
    case (SendWithAck a message timeoutMs uuid)
    with assms(3) have u: "uuid \<noteq> c"
      by simp
    from sendWithAck_other [OF u lt] w SendWithAck show ?thesis
      by (simp add: ack_waiting_def)
  qed
qed

lemma relay_run_over:
  assumes "acks_inv rc" and "ack_over c h rc" and "fresh_ids c evs rc"
  shows "ack_over c h (relay_run evs rc) \<and> calls_on h (relay_run evs rc) = calls_on h rc"
  using assms
proof (induction evs arbitrary: rc)
  case Nil
  then show ?case
    by simp
next
  case (Cons ev evs)
  from Cons.prems(3) have f: "fresh_ids c [ev] rc" "fresh_ids c evs (relay_step ev rc)"
    by simp_all
  from relay_step_over [OF Cons.prems(1,2) f(1)]
  have o: "ack_over c h (relay_step ev rc)" "calls_on h (relay_step ev rc) = calls_on h rc"
    by simp_all
  from Cons.IH [OF relay_step_inv [OF Cons.prems(1) f(1)] o(1) f(2)] o(2) show ?case
    by simp
qed

lemma relay_run_waiting:
  assumes "acks_inv rc" and "ack_waiting c h agent rc" and "fresh_ids c evs rc"
  shows "case first_settlement c h agent evs of
           None \<Rightarrow> ack_waiting c h agent (relay_run evs rc)
         | Some s \<Rightarrow> ack_over c h (relay_run evs rc) \<and> calls_on h (relay_run evs rc) = [s]"
  using assms
proof (induction evs arbitrary: rc)
  case Nil
  then show ?case
    by simp
next
  case (Cons ev evs)
  from Cons.prems(3) have f: "fresh_ids c [ev] rc" "fresh_ids c evs (relay_step ev rc)"
    by simp_all
  note inv' = relay_step_inv [OF Cons.prems(1) f(1)]
  note step = relay_step_waiting [OF Cons.prems(1,2) f(1)]
  show ?case
  proof (cases "first_settlement c h agent [ev]")
    case None
    with step have w: "ack_waiting c h agent (relay_step ev rc)"
      by simp
    from None have "first_settlement c h agent (ev # evs) = first_settlement c h agent evs"
      by (cases ev) (simp_all split: if_splits)
    with Cons.IH [OF inv' w f(2)] show ?thesis
      by (simp split: option.splits)
  next
    case (Some s)
    with step have o: "ack_over c h (relay_step ev rc)" "calls_on h (relay_step ev rc) = [s]"
      by simp_all
    from Some have "first_settlement c h agent (ev # evs) = Some s"
      by (cases ev) (simp_all split: if_splits)
    with relay_run_over [OF inv' o(1) f(2)] o(2) show ?thesis
      by simp
  qed
qed
lemma relay_run_inv:
  assumes "acks_inv rc" and "fresh_ids c evs rc"
  shows "acks_inv (relay_run evs rc)"
  using assms
proof (induction evs arbitrary: rc)
  case Nil
  then show ?case
    by simp
next
  case (Cons ev evs)
  from Cons.prems(2) have f: "fresh_ids c [ev] rc" "fresh_ids c evs (relay_step ev rc)"
    by simp_all
  from Cons.IH [OF relay_step_inv [OF Cons.prems(1) f(1)] f(2)] show ?case
    by simp
qed

text \<open>
  C9. On a relay client whose table and timers agree, \<open>sendWithAck\<close> with a correlation id
  \<open>c\<close> that is not in the table writes \<open>c\<close> into the frame it sends, enters \<open>c\<close> in the table
  and arms a timer with the timeout given, 5000 when none is given; no call has yet been made
  on the promise it returns. Whatever happens next (\<open>ack\<close> frames, timers firing, further
  \<open>sendWithAck\<close> calls with ids of their own): as long as neither an \<open>ack\<close> frame with \<open>c\<close> has
  come nor the timer has fired, the promise is unsettled and \<open>c\<close> is in the table; from the
  first of the two on, exactly one call has been made on the promise, \<open>resolve\<close> with the
  frame's data if the \<open>ack\<close> came first, \<open>reject\<close> with the timeout error if the timer fired
  first, and \<open>c\<close> is not in the table.
\<close>

theorem sendWithAck_settles_once:
  assumes "acks_inv rc"
    and "pendingAcks rc c = None"
    and "fresh_ids c evs (snd (sendWithAck agent message timeoutMs c rc))"
  shows "let h = fst (sendWithAck agent message timeoutMs c rc);
             rc1 = snd (sendWithAck agent message timeoutMs c rc);
             rc2 = relay_run evs rc1
         in pendingAcks rc1 c = Some \<lparr>ack_promise = h, ack_timeout = h\<rparr>
            \<and> map_option timer_delay (timers rc1 h)
                = Some (case timeoutMs of None \<Rightarrow> 5000 | Some t \<Rightarrow> t)
            \<and> (connections rc agent = Some OPEN \<longrightarrow>
                 written rc1 = written rc @ [(agent, message\<lparr>ws_correlationId := Some c\<rparr>)])
            \<and> calls_on h rc1 = []
            \<and> (case first_settlement c h agent evs of
                  None \<Rightarrow>
                    calls_on h rc2 = []
                    \<and> pendingAcks rc2 c = Some \<lparr>ack_promise = h, ack_timeout = h\<rparr>
                    \<and> timers rc2 h \<noteq> None
                | Some s \<Rightarrow>
                    calls_on h rc2 = [s] \<and> pendingAcks rc2 c = None \<and> timers rc2 h = None)"
proof -
  let ?h = "next_handle rc"
  let ?rc1 = "snd (sendWithAck agent message timeoutMs c rc)"
  have h: "fst (sendWithAck agent message timeoutMs c rc) = ?h"
    by (simp add: sendWithAck_def Let_def)
  have "\<forall>x \<in> set (settle_calls rc). fst x \<noteq> ?h"
    using acks_inv_calls [OF assms(1)] by fastforce
  then have no_calls: "calls_on ?h rc = []"
    by (simp add: calls_on_def filter_empty_conv)
  have f: "pendingAcks ?rc1 c = Some \<lparr>ack_promise = ?h, ack_timeout = ?h\<rparr>"
    "timers ?rc1 ?h = Some \<lparr>timer_delay = (case timeoutMs of None \<Rightarrow> 5000 | Some t \<Rightarrow> t),
       timer_correlationId = c, timer_agentId = agent, timer_promise = ?h\<rparr>"
    "calls_on ?h ?rc1 = calls_on ?h rc"
    "connections rc agent = Some OPEN \<longrightarrow>
       written ?rc1 = written rc @ [(agent, message\<lparr>ws_correlationId := Some c\<rparr>)]"
    by (simp_all add: sendWithAck_def Let_def calls_on_def sendToAgent_def)
  have w: "ack_waiting c ?h agent ?rc1"
    using f no_calls by (simp add: ack_waiting_def)
  have inv1: "acks_inv ?rc1"
    using assms(1,2) by (rule acks_inv_sendWithAck)
  have run: "case first_settlement c ?h agent evs of
           None \<Rightarrow> ack_waiting c ?h agent (relay_run evs ?rc1)
         | Some s \<Rightarrow> ack_over c ?h (relay_run evs ?rc1) \<and> calls_on ?h (relay_run evs ?rc1) = [s]"
    using inv1 w assms(3) by (rule relay_run_waiting)
  have "case first_settlement c ?h agent evs of
          None \<Rightarrow>
            calls_on ?h (relay_run evs ?rc1) = []
            \<and> pendingAcks (relay_run evs ?rc1) c = Some \<lparr>ack_promise = ?h, ack_timeout = ?h\<rparr>
            \<and> timers (relay_run evs ?rc1) ?h \<noteq> None
        | Some s \<Rightarrow>
            calls_on ?h (relay_run evs ?rc1) = [s] \<and> pendingAcks (relay_run evs ?rc1) c = None
            \<and> timers (relay_run evs ?rc1) ?h = None"
    using run by (auto simp: ack_waiting_def ack_over_def split: option.splits)
  with f no_calls show ?thesis
    unfolding Let_def h by simp
qed

lemma acks_inv_example: "acks_inv example_relay"
  by (simp add: acks_inv_def example_relay_def new_RelayClient_def)

theorem sendWithAck_settles_once_witness:
  "acks_inv example_relay
   \<and> pendingAcks example_relay ''c-1'' = None
   \<and> fst (sendWithAck ''agentB'' example_frame (Some 1000) ''c-1'' example_relay) = 0
   \<and> written (snd (sendWithAck ''agentB'' example_frame (Some 1000) ''c-1'' example_relay))
       = [(''agentB'', example_frame\<lparr>ws_correlationId := Some ''c-1''\<rparr>)]
   \<and> calls_on 0
        (relay_run [TimerFires 0, AckFrame (Some ''c-1'') JNull]
           (snd (sendWithAck ''agentB'' example_frame (Some 1000) ''c-1'' example_relay)))
       = [Reject ''Timeout waiting for ack from agentB'']
   \<and> pendingAcks
        (relay_run [TimerFires 0, AckFrame (Some ''c-1'') JNull]
           (snd (sendWithAck ''agentB'' example_frame (Some 1000) ''c-1'' example_relay))) ''c-1''
       = None
   \<and> calls_on 0
        (relay_run [AckFrame (Some ''c-1'') (JBool True), TimerFires 0]
           (snd (sendWithAck ''agentB'' example_frame (Some 1000) ''c-1'' example_relay)))
       = [Resolve (JBool True)]
   \<and> pendingAcks
        (relay_run [AckFrame (Some ''c-1'') (JBool True), TimerFires 0]
           (snd (sendWithAck ''agentB'' example_frame (Some 1000) ''c-1'' example_relay))) ''c-1''
       = None"
proof -
  have fresh: "pendingAcks example_relay ''c-1'' = None"
    by (simp add: example_relay_def new_RelayClient_def)
  have op: "connections example_relay ''agentB'' = Some OPEN" "written example_relay = []"
    by (simp_all add: example_relay_def new_RelayClient_def)
  have h: "fst (sendWithAck ''agentB'' example_frame (Some 1000) ''c-1'' example_relay) = 0"
    by (simp add: sendWithAck_def Let_def example_relay_def new_RelayClient_def)
  have f1: "fresh_ids ''c-1'' [TimerFires 0, AckFrame (Some ''c-1'') JNull]
      (snd (sendWithAck ''agentB'' example_frame (Some 1000) ''c-1'' example_relay))"
    and f2: "fresh_ids ''c-1'' [AckFrame (Some ''c-1'') (JBool True), TimerFires 0]
      (snd (sendWithAck ''agentB'' example_frame (Some 1000) ''c-1'' example_relay))"
    by simp_all
  show ?thesis
    using sendWithAck_settles_once [OF acks_inv_example fresh f1]
      sendWithAck_settles_once [OF acks_inv_example fresh f2]
      acks_inv_example fresh op
    unfolding Let_def h by simp
qed

end
